theory Spec2Isabelle
  imports Complex_Main "HOL-Library.Sublist"
begin

section \<open>Numbers\<close>

text \<open>
  JavaScript numbers are modelled as real numbers: timestamps are milliseconds, positions are
  normalised image coordinates, angles are degrees. Rounding error, NaN and the infinities
  of IEEE arithmetic are outside the model; where the source relies on a division by zero
  yielding Infinity or NaN, the model writes that case out as an explicit branch. A number
  that is zero stands for the positive zero; the one place where the sign of a computed
  zero decides a result, the second argument of \<open>Math.atan2\<close> in \<open>angleDeg\<close>, carries that
  sign as a flag.
\<close>

text \<open>
  \<open>Math.max(...vs)\<close> and \<open>Math.min(...vs)\<close>. Every call site in the sources sits behind a
  length check, so only the non-empty case is given (the empty calls would yield the
  infinities).
\<close>

fun Math_max :: "real list \<Rightarrow> real" where
  "Math_max (v # vs) = fold max vs v"

fun Math_min :: "real list \<Rightarrow> real" where
  "Math_min (v # vs) = fold min vs v"

text \<open>
  \<open>Math.atan2(y, x)\<close> on real arguments. When both are zero the result depends on the sign
  of the zero \<open>x\<close>: \<open>atan2(+0, +0) = 0\<close> and \<open>atan2(+0, -0) = pi\<close>. The flag says that \<open>x\<close>, if
  it is zero, is the negative zero; \<open>y\<close> is never a negative zero at the call sites, which
  pass an absolute value.
\<close>

definition atan2 :: "real \<Rightarrow> real \<Rightarrow> bool \<Rightarrow> real" where
  "atan2 y x xNegativeZero =
     (if 0 < x then arctan (y / x)
      else if x < 0 \<and> 0 \<le> y then arctan (y / x) + pi
      else if x < 0 \<and> y < 0 then arctan (y / x) - pi
      else if 0 < y then pi / 2
      else if y < 0 then - (pi / 2)
      else if xNegativeZero then pi
      else 0)"

text \<open>
  The product of two numbers, neither a negative zero, is the negative zero exactly when
  one factor is zero and the other is negative.
\<close>

definition negativeZeroProduct :: "real \<Rightarrow> real \<Rightarrow> bool" where
  "negativeZeroProduct a b = ((a = 0 \<and> b < 0) \<or> (a < 0 \<and> b = 0))"

section \<open>Angle geometry (angles.js)\<close>

datatype side = Left | Right

datatype joint = LmShoulder | LmElbow | LmWrist | LmHip | LmKnee | LmAnkle

text \<open>\<open>SIDE_LANDMARKS[side]\<close>, as \<open>Object.entries\<close> enumerates it.\<close>

fun SIDE_LANDMARKS :: "side \<Rightarrow> (joint \<times> nat) list" where
  "SIDE_LANDMARKS Left =
     [(LmShoulder, 11), (LmElbow, 13), (LmWrist, 15), (LmHip, 23), (LmKnee, 25), (LmAnkle, 27)]"
| "SIDE_LANDMARKS Right =
     [(LmShoulder, 12), (LmElbow, 14), (LmWrist, 16), (LmHip, 24), (LmKnee, 26), (LmAnkle, 28)]"

text \<open>A landmark of the pose source: \<open>{x, y, visibility?}\<close>.\<close>

record landmark =
  lm_x :: real
  lm_y :: real
  visibility :: "real option"

text \<open>A 2D point \<open>{x, y}\<close>.\<close>

record point =
  px :: real
  py :: real

record angle_set =
  knee :: real
  hip :: real
  torso :: real
  elbow :: real

text \<open>
  \<open>allLandmarks[idx]\<close>: the landmark array is a list of optional landmarks; an index past
  the end, or a hole, reads as \<open>undefined\<close>.
\<close>

definition landmarkAt :: "landmark option list \<Rightarrow> nat \<Rightarrow> landmark option" where
  "landmarkAt allLandmarks idx =
     (if idx < length allLandmarks then allLandmarks ! idx else None)"

text \<open>
  \<open>angleDeg(a, b, c)\<close>. A difference of equal coordinates is the positive zero, and the sum
  of two zero products is the negative zero only when both products are: so \<open>dot\<close> is the
  negative zero exactly when one of the two vectors is the zero vector and each product
  pairs a zero with a negative component. Then the source computes \<open>atan2(+0, -0)\<close> and
  returns 180.
\<close>

definition angleDeg :: "point \<Rightarrow> point \<Rightarrow> point \<Rightarrow> real" where
  "angleDeg a b c =
     (let v1x = px a - px b;
          v1y = py a - py b;
          v2x = px c - px b;
          v2y = py c - py b;
          dot = v1x * v2x + v1y * v2y;
          dotNegativeZero = (negativeZeroProduct v1x v2x \<and> negativeZeroProduct v1y v2y);
          cross = v1x * v2y - v1y * v2x;
          rad = atan2 \<bar>cross\<bar> dot dotNegativeZero
      in (rad * 180) / pi)"

definition angleFromHorizontal :: "point \<Rightarrow> point \<Rightarrow> real" where
  "angleFromHorizontal a b =
     (let dx = px b - px a;
          dy = py b - py a;
          rad = atan2 \<bar>dy\<bar> \<bar>dx\<bar> False
      in (rad * 180) / pi)"

text \<open>
  The loop of \<open>getLandmarks\<close> over the entries of \<open>SIDE_LANDMARKS[side]\<close>: the first entry
  whose landmark is missing, or whose visibility is defined and below the threshold, makes
  the whole call return \<open>null\<close>; otherwise the entry is stored with \<open>x\<close> scaled.
\<close>

fun getLandmarks_loop ::
  "(joint \<times> nat) list \<Rightarrow> landmark option list \<Rightarrow> real \<Rightarrow> real \<Rightarrow>
   (joint \<rightharpoonup> point) \<Rightarrow> (joint \<rightharpoonup> point) option" where
  "getLandmarks_loop [] allLandmarks aspectRatio visibilityThreshold result = Some result"
| "getLandmarks_loop ((name, idx) # rest) allLandmarks aspectRatio visibilityThreshold result =
     (case landmarkAt allLandmarks idx of
        None \<Rightarrow> None
      | Some lm \<Rightarrow>
          if (case visibility lm of None \<Rightarrow> False | Some v \<Rightarrow> v < visibilityThreshold)
          then None
          else getLandmarks_loop rest allLandmarks aspectRatio visibilityThreshold
                 (result(name \<mapsto> \<lparr>px = lm_x lm * aspectRatio, py = lm_y lm\<rparr>)))"

definition getLandmarks ::
  "landmark option list \<Rightarrow> side \<Rightarrow> real \<Rightarrow> real \<Rightarrow> (joint \<rightharpoonup> point) option" where
  "getLandmarks allLandmarks sd aspectRatio visibilityThreshold =
     getLandmarks_loop (SIDE_LANDMARKS sd) allLandmarks aspectRatio visibilityThreshold Map.empty"

text \<open>
  \<open>computeAngles\<close> calls \<open>getLandmarks\<close> with the default threshold 0.6. Its reads
  \<open>lm.hip\<close>, \<open>lm.knee\<close>, ... are reads of the map that the loop filled; the loop
  stores all six names before it returns a map (\<open>getLandmarks_spec\<close> below).
\<close>

definition computeAngles :: "landmark option list \<Rightarrow> side \<Rightarrow> real \<Rightarrow> angle_set option" where
  "computeAngles allLandmarks sd aspectRatio =
     (case getLandmarks allLandmarks sd aspectRatio (6 / 10) of
        None \<Rightarrow> None
      | Some lm \<Rightarrow>
          Some \<lparr>knee = angleDeg (the (lm LmHip)) (the (lm LmKnee)) (the (lm LmAnkle)),
                hip = angleDeg (the (lm LmShoulder)) (the (lm LmHip)) (the (lm LmKnee)),
                torso = angleFromHorizontal (the (lm LmHip)) (the (lm LmShoulder)),
                elbow = angleDeg (the (lm LmShoulder)) (the (lm LmElbow)) (the (lm LmWrist))\<rparr>)"

text \<open>What the specification calls a usable landmark: present, and not below the threshold.\<close>

definition usable :: "landmark option list \<Rightarrow> nat \<Rightarrow> bool" where
  "usable allLandmarks idx =
     (case landmarkAt allLandmarks idx of
        None \<Rightarrow> False
      | Some lm \<Rightarrow> (case visibility lm of None \<Rightarrow> True | Some v \<Rightarrow> \<not> v < 6 / 10))"

text \<open>The aspect-corrected point of a landmark: \<open>x\<close> scaled, \<open>y\<close> as it is.\<close>

definition corrected :: "landmark option list \<Rightarrow> real \<Rightarrow> nat \<Rightarrow> point" where
  "corrected allLandmarks aspectRatio idx =
     (case landmarkAt allLandmarks idx of
        None \<Rightarrow> \<lparr>px = 0, py = 0\<rparr>
      | Some lm \<Rightarrow> \<lparr>px = lm_x lm * aspectRatio, py = lm_y lm\<rparr>)"

text \<open>The index of a joint on a side, read off \<open>SIDE_LANDMARKS\<close>.\<close>

definition jointIndex :: "side \<Rightarrow> joint \<Rightarrow> nat" where
  "jointIndex sd j = the (map_of (SIDE_LANDMARKS sd) j)"

text \<open>The aspect-corrected point of a joint of a side.\<close>

definition jointPoint :: "landmark option list \<Rightarrow> side \<Rightarrow> real \<Rightarrow> joint \<Rightarrow> point" where
  "jointPoint allLandmarks sd aspectRatio j = corrected allLandmarks aspectRatio (jointIndex sd j)"

section \<open>Cycle segmentation engine (cadence.js)\<close>

definition WINDOW_DURATION_MS :: real where
  "WINDOW_DURATION_MS = 4000"

definition MIN_CYCLES_FOR_STEADY :: nat where
  "MIN_CYCLES_FOR_STEADY = 3"

definition MAX_PERIOD_VARIATION :: real where
  "MAX_PERIOD_VARIATION = 25 / 100"

definition MIN_CADENCE_RPM :: real where
  "MIN_CADENCE_RPM = 40"

definition MAX_CADENCE_RPM :: real where
  "MAX_CADENCE_RPM = 120"

definition STOP_TIMEOUT_MS :: real where
  "STOP_TIMEOUT_MS = 2000"

text \<open>A buffered sample \<open>{ t, y }\<close>.\<close>

record sample =
  smp_t :: real
  smp_y :: real

text \<open>
  The per-cycle summary object built in \<open>_checkCycleComplete\<close>:
  \<open>{ cycleNumber, timestamp, rpm, angles: { knee: { max }, hip: { min }, torso: { avg },
  elbow: { avg } } }\<close>, the one-field objects flattened into field names.
\<close>

record cycle_angles =
  knee_max :: real
  hip_min :: real
  torso_avg :: real
  elbow_avg :: real

record cycle_summary =
  cycleNumber :: nat
  timestamp :: real
  rpm :: int
  angles :: cycle_angles

text \<open>
  The fields of \<open>CadenceDetector\<close>. The registered callback is a listener: the model keeps
  whether one is registered, and every function that may call it returns the list of
  summaries it was called with.
\<close>

record detector =
  samples :: "sample list"
  peaks :: "real list"
  troughs :: "real list"
  isSteady :: bool
  lastCycleTime :: real
  cycleCount :: nat
  onCycleCallback :: bool
  currentCycleAngles :: "angle_set list"

definition reset :: detector where
  "reset = \<lparr>samples = [], peaks = [], troughs = [], isSteady = False, lastCycleTime = 0,
            cycleCount = 0, onCycleCallback = False, currentCycleAngles = []\<rparr>"

definition onCycle :: "detector \<Rightarrow> detector" where
  "onCycle s = s\<lparr>onCycleCallback := True\<rparr>"

definition hasStopped :: "detector \<Rightarrow> real \<Rightarrow> bool" where
  "hasStopped s ts =
     (if lastCycleTime s = 0 then False
      else ts - lastCycleTime s > STOP_TIMEOUT_MS)"

text \<open>
  \<open>_smoothY(idx)\<close>: the mean of the samples at \<open>max(0, idx - 2) .. min(length - 1, idx + 2)\<close>.
  Subtraction on \<open>nat\<close> stops at 0, which is the \<open>Math.max(0, _)\<close> of the source.
\<close>

definition smoothY :: "sample list \<Rightarrow> nat \<Rightarrow> real" where
  "smoothY smps idx =
     (let radius = 2;
          window = map (\<lambda>i. smp_y (smps ! i))
                     [idx - radius ..< Suc (min (length smps - 1) (idx + radius))]
      in sum_list window / real (length window))"

text \<open>\<open>peaks.slice(-n)\<close>: the last \<open>n\<close> entries, or the whole list when it is shorter.\<close>

definition slice_last :: "nat \<Rightarrow> 'a list \<Rightarrow> 'a list" where
  "slice_last n xs = drop (length xs - n) xs"

text \<open>
  \<open>_checkSteady\<close>. When the average period is 0, every quotient of the source is Infinity
  or NaN, \<open>Math.max\<close> is Infinity or NaN, and the comparison with \<open>MAX_PERIOD_VARIATION\<close> is
  false; the model takes that branch explicitly.
\<close>

definition checkSteady :: "detector \<Rightarrow> detector" where
  "checkSteady s =
     (if length (peaks s) < MIN_CYCLES_FOR_STEADY + 1 then s\<lparr>isSteady := False\<rparr>
      else
        let recentPeaks = slice_last (MIN_CYCLES_FOR_STEADY + 1) (peaks s);
            periods = map (\<lambda>i. recentPeaks ! i - recentPeaks ! (i - 1))
                        [1 ..< length recentPeaks];
            avgPeriod = sum_list periods / real (length periods)
        in if avgPeriod = 0 then s\<lparr>isSteady := False\<rparr>
           else
             let maxVariation =
                   Math_max (map (\<lambda>p. \<bar>p - avgPeriod\<bar> / avgPeriod) periods)
             in s\<lparr>isSteady := (maxVariation < MAX_PERIOD_VARIATION)\<rparr>)"

text \<open>
  The summary object of an accepted cycle with a non-empty angle buffer; its \<open>angles\<close>
  object first.
\<close>

definition cycleAngleSummary :: "angle_set list \<Rightarrow> cycle_angles" where
  "cycleAngleSummary cycleAngles =
     \<lparr>knee_max = Math_max (map knee cycleAngles),
      hip_min = Math_min (map hip cycleAngles),
      torso_avg = sum_list (map torso cycleAngles) / real (length cycleAngles),
      elbow_avg = sum_list (map elbow cycleAngles) / real (length cycleAngles)\<rparr>"

definition cycleSummary :: "nat \<Rightarrow> real \<Rightarrow> real \<Rightarrow> angle_set list \<Rightarrow> cycle_summary" where
  "cycleSummary count peakTime cadence cycleAngles =
     \<lparr>cycleNumber = count,
      timestamp = peakTime,
      rpm = round cadence,
      angles = cycleAngleSummary cycleAngles\<rparr>"

text \<open>
  \<open>_checkCycleComplete(peakTime)\<close>, called after the peak has been pushed. A period of 0
  gives the cadence Infinity in the source, which is above \<open>MAX_CADENCE_RPM\<close>: the model
  returns there explicitly. \<open>Math.round\<close> is \<open>floor (x + 1/2)\<close>, which is \<open>round\<close>.
\<close>

definition checkCycleComplete :: "detector \<Rightarrow> real \<Rightarrow> detector \<times> cycle_summary list" where
  "checkCycleComplete s peakTime =
     (if length (peaks s) < 2 then (s, [])
      else
        let prevPeak = peaks s ! (length (peaks s) - 2);
            period = peakTime - prevPeak
        in if period = 0 then (s, [])
           else
             let cadence = 60000 / period
             in if cadence < MIN_CADENCE_RPM \<or> cadence > MAX_CADENCE_RPM then (s, [])
                else
                  let s1 = s\<lparr>cycleCount := cycleCount s + 1, lastCycleTime := peakTime\<rparr>;
                      cycleAngles = currentCycleAngles s1;
                      s2 = s1\<lparr>currentCycleAngles := []\<rparr>;
                      emitted =
                        (if length cycleAngles > 0 \<and> onCycleCallback s2
                         then [cycleSummary (cycleCount s2) peakTime cadence cycleAngles]
                         else [])
                  in (checkSteady s2, emitted))"

text \<open>
  The pieces of \<open>_detectPeaks(timestamp)\<close>: the candidate index \<open>len - 1 - lookback\<close>, the
  two flags computed by the loop over the neighbours \<open>idx - lookback .. idx + lookback\<close>
  (skipping \<open>idx\<close>), and the prominence against the mean of the window.
\<close>

definition lookback :: nat where
  "lookback = 5"

definition minProminence :: real where
  "minProminence = 1 / 100"

definition candidateIdx :: "sample list \<Rightarrow> nat" where
  "candidateIdx smps = length smps - 1 - lookback"

definition neighbours :: "nat \<Rightarrow> nat list" where
  "neighbours idx = filter (\<lambda>i. i \<noteq> idx) [idx - lookback ..< Suc (idx + lookback)]"

definition isPeak :: "sample list \<Rightarrow> nat \<Rightarrow> bool" where
  "isPeak smps idx = list_all (\<lambda>i. \<not> smoothY smps i \<ge> smoothY smps idx) (neighbours idx)"

definition isTrough :: "sample list \<Rightarrow> nat \<Rightarrow> bool" where
  "isTrough smps idx = list_all (\<lambda>i. \<not> smoothY smps i \<le> smoothY smps idx) (neighbours idx)"

definition prominence :: "sample list \<Rightarrow> nat \<Rightarrow> real" where
  "prominence smps idx =
     (let avgY = sum_list (map smp_y smps) / real (length smps)
      in \<bar>smoothY smps idx - avgY\<bar>)"

text \<open>
  The test \<open>!last || t - last > 300\<close> on a history of extrema: \<open>!last\<close> holds when the
  history is empty and also when its last entry is the number 0.
\<close>

definition farEnough :: "real list \<Rightarrow> real \<Rightarrow> bool" where
  "farEnough history t = (history = [] \<or> last history = 0 \<or> t - last history > 300)"

text \<open>The condition under which \<open>_detectPeaks\<close> pushes the candidate as a new peak.\<close>

definition peakAccepted :: "detector \<Rightarrow> bool" where
  "peakAccepted s =
     (let smps = samples s; idx = candidateIdx smps
      in \<not> length smps < lookback * 2 + 1 \<and>
         isPeak smps idx \<and> prominence smps idx > minProminence \<and>
         farEnough (peaks s) (smp_t (smps ! idx)))"

definition troughAccepted :: "detector \<Rightarrow> bool" where
  "troughAccepted s =
     (let smps = samples s; idx = candidateIdx smps
      in \<not> length smps < lookback * 2 + 1 \<and>
         isTrough smps idx \<and> prominence smps idx > minProminence \<and>
         farEnough (troughs s) (smp_t (smps ! idx)))"

definition candidateTime :: "detector \<Rightarrow> real" where
  "candidateTime s = smp_t (samples s ! candidateIdx (samples s))"

text \<open>The first \<open>if\<close> of \<open>_detectPeaks\<close>: push the candidate and check for a cycle.\<close>

definition afterPeak :: "detector \<Rightarrow> detector \<times> cycle_summary list" where
  "afterPeak s =
     (if peakAccepted s
      then checkCycleComplete (s\<lparr>peaks := peaks s @ [candidateTime s]\<rparr>) (candidateTime s)
      else (s, []))"

definition detectPeaks :: "detector \<Rightarrow> real \<Rightarrow> detector \<times> cycle_summary list" where
  "detectPeaks s ts =
     (if length (samples s) < lookback * 2 + 1 then (s, [])
      else
        let s1 = fst (afterPeak s);
            s2 = (if troughAccepted s1
                  then s1\<lparr>troughs := troughs s1 @ [candidateTime s1]\<rparr>
                  else s1);
            oldCutoff = ts - WINDOW_DURATION_MS * 2
        in (s2\<lparr>peaks := dropWhile (\<lambda>p. p < oldCutoff) (peaks s2),
               troughs := dropWhile (\<lambda>p. p < oldCutoff) (troughs s2)\<rparr>,
            snd (afterPeak s)))"

text \<open>
  \<open>addSample(timestamp, kneeY, angles)\<close>; \<open>angles\<close> is an angle set or \<open>null\<close>. First the
  buffers are updated: the sample is pushed, the angles are pushed when given, and the
  samples older than the window are shifted out.
\<close>

definition admitted :: "detector \<Rightarrow> real \<Rightarrow> real \<Rightarrow> angle_set option \<Rightarrow> detector" where
  "admitted s ts kneeY angs =
     (let s1 = s\<lparr>samples := samples s @ [\<lparr>smp_t = ts, smp_y = kneeY\<rparr>]\<rparr>;
          s2 = (case angs of
                  None \<Rightarrow> s1
                | Some a \<Rightarrow> s1\<lparr>currentCycleAngles := currentCycleAngles s1 @ [a]\<rparr>);
          cutoff = ts - WINDOW_DURATION_MS
      in s2\<lparr>samples := dropWhile (\<lambda>sm. smp_t sm < cutoff) (samples s2)\<rparr>)"

text \<open>
  The result of \<open>addSample\<close> is the new detector and the summaries handed to the listener
  during the call.
\<close>

definition addSample ::
  "detector \<Rightarrow> real \<Rightarrow> real \<Rightarrow> angle_set option \<Rightarrow> detector \<times> cycle_summary list" where
  "addSample s ts kneeY angs =
     (let s3 = admitted s ts kneeY angs
      in if length (samples s3) < 10 then (s3, [])
         else detectPeaks s3 ts)"

text \<open>A session of the engine: a sequence of calls, with the summaries emitted in order.\<close>

datatype event = AddSample real real "angle_set option" | OnCycle

fun step :: "detector \<Rightarrow> event \<Rightarrow> detector \<times> cycle_summary list" where
  "step s (AddSample ts kneeY angs) = addSample s ts kneeY angs"
| "step s OnCycle = (onCycle s, [])"

fun run :: "detector \<Rightarrow> event list \<Rightarrow> detector \<times> cycle_summary list" where
  "run s [] = (s, [])"
| "run s (e # es) =
     (let r1 = step s e; r2 = run (fst r1) es
      in (fst r2, snd r1 @ snd r2))"

text \<open>The non-null angle sets supplied by a sequence of calls, in order.\<close>

fun suppliedAngles :: "event list \<Rightarrow> angle_set list" where
  "suppliedAngles [] = []"
| "suppliedAngles (AddSample ts kneeY (Some a) # es) = a # suppliedAngles es"
| "suppliedAngles (e # es) = suppliedAngles es"

text \<open>
  The condition under which \<open>_checkCycleComplete\<close> passes its early returns: a previous
  peak exists and the cadence of the period lies in the band.
\<close>

definition cycleAccepted :: "detector \<Rightarrow> real \<Rightarrow> bool" where
  "cycleAccepted s peakTime =
     (2 \<le> length (peaks s) \<and>
      (let period = peakTime - peaks s ! (length (peaks s) - 2)
       in period \<noteq> 0 \<and> 40 \<le> 60000 / period \<and> 60000 / period \<le> 120))"

text \<open>The angle buffer after the push of \<open>addSample\<close>.\<close>

definition buffered :: "detector \<Rightarrow> angle_set option \<Rightarrow> angle_set list" where
  "buffered s angs = currentCycleAngles s @ (case angs of None \<Rightarrow> [] | Some a \<Rightarrow> [a])"

text \<open>
  Steadiness in the words of the specification: at least 4 peaks, the 3 periods between
  the most recent 4, their average, and the largest relative deviation from it below 25%.
\<close>

definition relativeDeviation :: "real \<Rightarrow> real \<Rightarrow> real" where
  "relativeDeviation p av = \<bar>p - av\<bar> / av"

definition steadyOf :: "real list \<Rightarrow> bool" where
  "steadyOf history =
     (4 \<le> length history \<and>
      (let n = length history;
           p1 = history ! (n - 3) - history ! (n - 4);
           p2 = history ! (n - 2) - history ! (n - 3);
           p3 = history ! (n - 1) - history ! (n - 2);
           av = (p1 + p2 + p3) / 3
       in av \<noteq> 0 \<and>
          max (relativeDeviation p1 av) (max (relativeDeviation p2 av) (relativeDeviation p3 av))
            < 25 / 100))"

text \<open>Sessions whose sample timestamps are all non-negative.\<close>

fun nonnegTime :: "event \<Rightarrow> bool" where
  "nonnegTime (AddSample ts kneeY angs) = (0 \<le> ts)"
| "nonnegTime OnCycle = True"

text \<open>A call of \<open>addSample\<close> that pushes a peak whose period passes the cadence check.\<close>

definition cycleCompleted :: "detector \<Rightarrow> real \<Rightarrow> real \<Rightarrow> angle_set option \<Rightarrow> bool" where
  "cycleCompleted s ts kneeY angs =
     (let a = admitted s ts kneeY angs
      in peakAccepted a \<and>
         cycleAccepted (a\<lparr>peaks := peaks a @ [candidateTime a]\<rparr>) (candidateTime a))"

text \<open>
  A detector whose buffered samples and peak history carry no negative time, and whose last
  cycle time, once a cycle has been counted, is at least 500 ms.
\<close>

definition timesNonneg :: "detector \<Rightarrow> bool" where
  "timesNonneg s =
     (list_all (\<lambda>sm. 0 \<le> smp_t sm) (samples s) \<and> list_all (\<lambda>p. 0 \<le> p) (peaks s) \<and>
      (cycleCount s = 0 \<or> 500 \<le> lastCycleTime s))"

section \<open>Session analyzer (analysis.js)\<close>

datatype channel = KneeCh | HipCh | TorsoCh | ElbowCh

record threshold =
  name :: string
  category :: string
  tmin :: real
  tmax :: real
  lowSuggestion :: string
  highSuggestion :: string
  goodSuggestion :: string

text \<open>The dash of the suggestion texts (U+2014), as the bytes of the source file.\<close>

definition emdash :: string where
  "emdash = [CHR 0xE2, CHR 0x80, CHR 0x94]"

definition knee_lowSuggestion :: string where
  "knee_lowSuggestion =
     ''Your knee is bending too much under load at the bottom of the pedal '' @
     ''stroke. This places excessive stress on the patellar tendon and can '' @
     ''lead to anterior knee pain over time. Raise your saddle in small '' @
     ''increments (5 mm at a time) until this angle increases into the '' @
     ''target range.''"

definition knee_highSuggestion :: string where
  "knee_highSuggestion =
     ''Your leg is overextending at the bottom of the pedal stroke. This can '' @
     ''strain the hamstrings and IT band, and may cause your hips to rock '' @
     ''side to side to reach the pedals. Lower your saddle in small '' @
     ''increments (5 mm at a time) until this angle decreases into the '' @
     ''target range.''"

definition knee_goodSuggestion :: string where
  "knee_goodSuggestion =
     ''Knee extension is in a healthy range. Your saddle height is well-set '' @
     emdash @
     '' no changes needed.''"

definition hip_lowSuggestion :: string where
  "hip_lowSuggestion =
     ''Your hip is closing too tightly at the top of the pedal stroke. Over '' @
     ''time, this can lead to hip impingement, lower-back pain, and '' @
     ''restricted breathing. Consider raising your handlebars, using a '' @
     ''shorter stem, or moving the saddle back slightly to open up this '' @
     ''angle.''"

definition hip_highSuggestion :: string where
  "hip_highSuggestion =
     ''Your hip angle is unusually open at the top of the stroke, which may '' @
     ''indicate the saddle is too far back or too low relative to the '' @
     ''handlebars. Check your saddle fore/aft position '' @
     emdash @
     '' you may need to slide it forward slightly.''"

definition hip_goodSuggestion :: string where
  "hip_goodSuggestion =
     ''Hip closure is in a comfortable, sustainable range. No risk of '' @
     ''impingement or back strain from this angle.''"

definition torso_lowSuggestion :: string where
  "torso_lowSuggestion =
     ''Your riding position is quite aggressive. While aerodynamically '' @
     ''efficient, this degree of forward lean can cause lower-back strain, '' @
     ''neck pain, and shoulder tension on longer rides. If you experience '' @
     ''any discomfort, consider raising your handlebars or using a shorter '' @
     ''stem. If you're comfortable, this is a performance-oriented position '' @
     ''and may not need adjustment.''"

definition torso_highSuggestion :: string where
  "torso_highSuggestion =
     ''Your torso is relatively upright. This is a comfortable position but '' @
     ''comes with an aerodynamic penalty. If you're looking to improve '' @
     ''speed, consider lowering handlebars or extending the stem for a more '' @
     ''aero profile. If comfort is your priority, there's no issue staying '' @
     ''here.''"

definition torso_goodSuggestion :: string where
  "torso_goodSuggestion =
     ''Torso angle is in a good range '' @
     emdash @
     '' a solid balance between aerodynamic efficiency and comfort.''"

definition elbow_lowSuggestion :: string where
  "elbow_lowSuggestion =
     ''Your arms are quite bent, which can lead to forearm fatigue and wrist '' @
     ''pressure on longer rides. This usually means the handlebars are too '' @
     ''close. Consider a longer stem, or slide your saddle back slightly. '' @
     ''That said, this is a comfort concern '' @
     emdash @
     '' if it feels fine, it's not harmful.''"

definition elbow_highSuggestion :: string where
  "elbow_highSuggestion =
     ''Your arms are nearly locked out, which transmits road vibration '' @
     ''directly into your shoulders and neck. A slight elbow bend acts as a '' @
     ''natural shock absorber. Consider a shorter stem or sliding the saddle '' @
     ''forward slightly. This is a comfort concern '' @
     emdash @
     '' not an injury risk, but you'll likely feel better with a bit more '' @
     ''bend.''"

definition elbow_goodSuggestion :: string where
  "elbow_goodSuggestion =
     ''Elbow bend is in a comfortable range '' @
     emdash @
     '' enough to absorb road vibration without causing arm fatigue.''"

text \<open>\<open>Object.entries(THRESHOLDS)\<close>.\<close>

definition THRESHOLDS :: "(channel \<times> threshold) list" where
  "THRESHOLDS =
     [(KneeCh, \<lparr>name = ''Knee (at BDC)'', category = ''Injury risk'', tmin = 135, tmax = 150,
         lowSuggestion = knee_lowSuggestion, highSuggestion = knee_highSuggestion,
         goodSuggestion = knee_goodSuggestion\<rparr>),
      (HipCh, \<lparr>name = ''Hip (at TDC)'', category = ''Injury risk'', tmin = 60, tmax = 80,
         lowSuggestion = hip_lowSuggestion, highSuggestion = hip_highSuggestion,
         goodSuggestion = hip_goodSuggestion\<rparr>),
      (TorsoCh, \<lparr>name = ''Torso'', category = ''Mixed'', tmin = 30, tmax = 55,
         lowSuggestion = torso_lowSuggestion, highSuggestion = torso_highSuggestion,
         goodSuggestion = torso_goodSuggestion\<rparr>),
      (ElbowCh, \<lparr>name = ''Elbow'', category = ''Comfort'', tmin = 145, tmax = 170,
         lowSuggestion = elbow_lowSuggestion, highSuggestion = elbow_highSuggestion,
         goodSuggestion = elbow_goodSuggestion\<rparr>)]"

definition TRIM_END_MS :: real where
  "TRIM_END_MS = 5000"

text \<open>
  \<open>trimCycles\<close>: lists of length at most one and lists spanning at most \<open>TRIM_END_MS\<close>
  are returned as they are; otherwise \<open>filter\<close> keeps the entries whose timestamp is at
  most \<open>lastTime - TRIM_END_MS\<close>.
\<close>

definition trimCycles :: "cycle_summary list \<Rightarrow> cycle_summary list" where
  "trimCycles cycleData =
     (if length cycleData \<le> 1 then cycleData
      else
        let lastTime = timestamp (last cycleData);
            firstTime = timestamp (hd cycleData)
        in if lastTime - firstTime \<le> TRIM_END_MS then cycleData
           else filter (\<lambda>c. timestamp c \<le> lastTime - TRIM_END_MS) cycleData)"

record analysis_result =
  key :: channel
  res_name :: string
  res_category :: string
  avg :: real
  minimum :: real
  maximum :: real
  std :: real
  targetMin :: real
  targetMax :: real
  status :: string
  suggestion :: string

text \<open>\<open>angleValues[key]\<close>: the representative value of every cycle for a channel.\<close>

fun angleValues :: "cycle_summary list \<Rightarrow> channel \<Rightarrow> real list" where
  "angleValues cycleData KneeCh = map (\<lambda>c. knee_max (angles c)) cycleData"
| "angleValues cycleData HipCh = map (\<lambda>c. hip_min (angles c)) cycleData"
| "angleValues cycleData TorsoCh = map (\<lambda>c. torso_avg (angles c)) cycleData"
| "angleValues cycleData ElbowCh = map (\<lambda>c. elbow_avg (angles c)) cycleData"

text \<open>\<open>Math.round(v * 10) / 10\<close>.\<close>

definition round1 :: "real \<Rightarrow> real" where
  "round1 v = real_of_int (round (v * 10)) / 10"

text \<open>The body of the loop of \<open>analyzeSession\<close> for one entry of \<open>THRESHOLDS\<close>.\<close>

definition analyzeChannel :: "cycle_summary list \<Rightarrow> channel \<times> threshold \<Rightarrow> analysis_result" where
  "analyzeChannel cycleData entry =
     (let k = fst entry;
          thr = snd entry;
          vals = angleValues cycleData k;
          mean = sum_list vals / real (length vals);
          mn = Math_min vals;
          mx = Math_max vals;
          sd = sqrt (sum_list (map (\<lambda>v. (v - mean) ^ 2) vals) / real (length vals));
          diff = (if mean < tmin thr then tmin thr - mean
                  else if mean > tmax thr then mean - tmax thr
                  else 0);
          verdict =
            (if mean < tmin thr
             then (if diff > 10 then ''red'' else ''yellow'', lowSuggestion thr)
             else if mean > tmax thr
             then (if diff > 10 then ''red'' else ''yellow'', highSuggestion thr)
             else (''green'', goodSuggestion thr))
      in \<lparr>key = k,
          res_name = name thr,
          res_category = category thr,
          avg = round1 mean,
          minimum = round1 mn,
          maximum = round1 mx,
          std = round1 sd,
          targetMin = tmin thr,
          targetMax = tmax thr,
          status = fst verdict,
          suggestion = snd verdict\<rparr>)"

definition analyzeSession :: "cycle_summary list \<Rightarrow> analysis_result list" where
  "analyzeSession cycleData =
     (if length cycleData = 0 then []
      else map (analyzeChannel cycleData) THRESHOLDS)"

text \<open>
  The caller of the analyzer, \<open>finalizeAnalysis\<close> of the application: the status line it
  sets, and the results it renders (none when it returns early).
\<close>

datatype final_status = NoCyclesCaptured | NoValidCyclesAfterFiltering | AnalysisComplete

definition finalizeAnalysis ::
  "cycle_summary list \<Rightarrow> final_status \<times> analysis_result list option" where
  "finalizeAnalysis cycleData =
     (if length cycleData = 0 then (NoCyclesCaptured, None)
      else
        let trimmed = trimCycles cycleData
        in if length trimmed = 0 then (NoValidCyclesAfterFiltering, None)
           else (AnalysisComplete, Some (analyzeSession trimmed)))"

text \<open>The mean of a channel over a session, as \<open>analyzeSession\<close> computes it.\<close>

definition channelMean :: "cycle_summary list \<Rightarrow> channel \<Rightarrow> real" where
  "channelMean cycleData k =
     sum_list (angleValues cycleData k) / real (length (angleValues cycleData k))"

text \<open>The span of a session: last timestamp minus first timestamp.\<close>

definition sessionSpan :: "cycle_summary list \<Rightarrow> real" where
  "sessionSpan cycleData = timestamp (last cycleData) - timestamp (hd cycleData)"

text \<open>A summary carrying a given timestamp, for concrete sessions.\<close>

definition cyc :: "nat \<Rightarrow> real \<Rightarrow> cycle_summary" where
  "cyc n ts = \<lparr>cycleNumber = n, timestamp = ts, rpm = 60,
     angles = \<lparr>knee_max = 140, hip_min = 70, torso_avg = 40, elbow_avg = 160\<rparr>\<rparr>"

section \<open>Concrete sessions\<close>

text \<open>An angle set that varies with the frame number, for concrete sessions.\<close>

definition posture :: "nat \<Rightarrow> angle_set" where
  "posture i = \<lparr>knee = 140 + real i, hip = 70 - real i, torso = 40 + real i, elbow = 160\<rparr>"

text \<open>
  A listener is registered, then 29 frames 100 ms apart with angles: a triangular knee
  signal with maxima at 500, 1100, 1700 and 2300 ms (periods of 600 ms, 100 RPM).
\<close>

definition steadyRide :: "event list" where
  "steadyRide =
     [OnCycle,
      AddSample 0 (1 / 5) (Some (posture 0)),
      AddSample 100 (1 / 10) (Some (posture 1)),
      AddSample 200 (0) (Some (posture 2)),
      AddSample 300 (1 / 10) (Some (posture 3)),
      AddSample 400 (1 / 5) (Some (posture 4)),
      AddSample 500 (3 / 10) (Some (posture 5)),
      AddSample 600 (1 / 5) (Some (posture 6)),
      AddSample 700 (1 / 10) (Some (posture 7)),
      AddSample 800 (0) (Some (posture 8)),
      AddSample 900 (1 / 10) (Some (posture 9)),
      AddSample 1000 (1 / 5) (Some (posture 10)),
      AddSample 1100 (3 / 10) (Some (posture 11)),
      AddSample 1200 (1 / 5) (Some (posture 12)),
      AddSample 1300 (1 / 10) (Some (posture 13)),
      AddSample 1400 (0) (Some (posture 14)),
      AddSample 1500 (1 / 10) (Some (posture 15)),
      AddSample 1600 (1 / 5) (Some (posture 16)),
      AddSample 1700 (3 / 10) (Some (posture 17)),
      AddSample 1800 (1 / 5) (Some (posture 18)),
      AddSample 1900 (1 / 10) (Some (posture 19)),
      AddSample 2000 (0) (Some (posture 20)),
      AddSample 2100 (1 / 10) (Some (posture 21)),
      AddSample 2200 (1 / 5) (Some (posture 22)),
      AddSample 2300 (3 / 10) (Some (posture 23)),
      AddSample 2400 (1 / 5) (Some (posture 24)),
      AddSample 2500 (1 / 10) (Some (posture 25)),
      AddSample 2600 (0) (Some (posture 26)),
      AddSample 2700 (1 / 10) (Some (posture 27)),
      AddSample 2800 (1 / 5) (Some (posture 28))]"

text \<open>
  The detector after the listener and the first 28 frames of \<open>steadyRide\<close>.
\<close>

definition steadyBeforeLast :: detector where
  "steadyBeforeLast =
     \<lparr>samples =
        [\<lparr>smp_t = 0, smp_y = 1 / 5\<rparr>,
         \<lparr>smp_t = 100, smp_y = 1 / 10\<rparr>,
         \<lparr>smp_t = 200, smp_y = 0\<rparr>,
         \<lparr>smp_t = 300, smp_y = 1 / 10\<rparr>,
         \<lparr>smp_t = 400, smp_y = 1 / 5\<rparr>,
         \<lparr>smp_t = 500, smp_y = 3 / 10\<rparr>,
         \<lparr>smp_t = 600, smp_y = 1 / 5\<rparr>,
         \<lparr>smp_t = 700, smp_y = 1 / 10\<rparr>,
         \<lparr>smp_t = 800, smp_y = 0\<rparr>,
         \<lparr>smp_t = 900, smp_y = 1 / 10\<rparr>,
         \<lparr>smp_t = 1000, smp_y = 1 / 5\<rparr>,
         \<lparr>smp_t = 1100, smp_y = 3 / 10\<rparr>,
         \<lparr>smp_t = 1200, smp_y = 1 / 5\<rparr>,
         \<lparr>smp_t = 1300, smp_y = 1 / 10\<rparr>,
         \<lparr>smp_t = 1400, smp_y = 0\<rparr>,
         \<lparr>smp_t = 1500, smp_y = 1 / 10\<rparr>,
         \<lparr>smp_t = 1600, smp_y = 1 / 5\<rparr>,
         \<lparr>smp_t = 1700, smp_y = 3 / 10\<rparr>,
         \<lparr>smp_t = 1800, smp_y = 1 / 5\<rparr>,
         \<lparr>smp_t = 1900, smp_y = 1 / 10\<rparr>,
         \<lparr>smp_t = 2000, smp_y = 0\<rparr>,
         \<lparr>smp_t = 2100, smp_y = 1 / 10\<rparr>,
         \<lparr>smp_t = 2200, smp_y = 1 / 5\<rparr>,
         \<lparr>smp_t = 2300, smp_y = 3 / 10\<rparr>,
         \<lparr>smp_t = 2400, smp_y = 1 / 5\<rparr>,
         \<lparr>smp_t = 2500, smp_y = 1 / 10\<rparr>,
         \<lparr>smp_t = 2600, smp_y = 0\<rparr>,
         \<lparr>smp_t = 2700, smp_y = 1 / 10\<rparr>],
      peaks = [500, 1100, 1700], troughs = [800, 1400, 2000], isSteady = False,
      lastCycleTime = 1700, cycleCount = 2, onCycleCallback = True,
      currentCycleAngles =
        [posture 23, posture 24, posture 25, posture 26, posture 27]\<rparr>"

text \<open>
  The first 17 frames of the same signal on a clock that starts at -1100 ms: maxima at
  -600 and 0 ms.
\<close>

definition earlyRide :: "event list" where
  "earlyRide =
     [OnCycle,
      AddSample (- 1100) (1 / 5) (Some (posture 0)),
      AddSample (- 1000) (1 / 10) (Some (posture 1)),
      AddSample (- 900) (0) (Some (posture 2)),
      AddSample (- 800) (1 / 10) (Some (posture 3)),
      AddSample (- 700) (1 / 5) (Some (posture 4)),
      AddSample (- 600) (3 / 10) (Some (posture 5)),
      AddSample (- 500) (1 / 5) (Some (posture 6)),
      AddSample (- 400) (1 / 10) (Some (posture 7)),
      AddSample (- 300) (0) (Some (posture 8)),
      AddSample (- 200) (1 / 10) (Some (posture 9)),
      AddSample (- 100) (1 / 5) (Some (posture 10)),
      AddSample 0 (3 / 10) (Some (posture 11)),
      AddSample 100 (1 / 5) (Some (posture 12)),
      AddSample 200 (1 / 10) (Some (posture 13)),
      AddSample 300 (0) (Some (posture 14)),
      AddSample 400 (1 / 10) (Some (posture 15)),
      AddSample 500 (1 / 5) (Some (posture 16))]"

text \<open>
  The detector after the listener and the first 16 frames of \<open>earlyRide\<close>.
\<close>

definition earlyBeforeLast :: detector where
  "earlyBeforeLast =
     \<lparr>samples =
        [\<lparr>smp_t = - 1100, smp_y = 1 / 5\<rparr>,
         \<lparr>smp_t = - 1000, smp_y = 1 / 10\<rparr>,
         \<lparr>smp_t = - 900, smp_y = 0\<rparr>,
         \<lparr>smp_t = - 800, smp_y = 1 / 10\<rparr>,
         \<lparr>smp_t = - 700, smp_y = 1 / 5\<rparr>,
         \<lparr>smp_t = - 600, smp_y = 3 / 10\<rparr>,
         \<lparr>smp_t = - 500, smp_y = 1 / 5\<rparr>,
         \<lparr>smp_t = - 400, smp_y = 1 / 10\<rparr>,
         \<lparr>smp_t = - 300, smp_y = 0\<rparr>,
         \<lparr>smp_t = - 200, smp_y = 1 / 10\<rparr>,
         \<lparr>smp_t = - 100, smp_y = 1 / 5\<rparr>,
         \<lparr>smp_t = 0, smp_y = 3 / 10\<rparr>,
         \<lparr>smp_t = 100, smp_y = 1 / 5\<rparr>,
         \<lparr>smp_t = 200, smp_y = 1 / 10\<rparr>,
         \<lparr>smp_t = 300, smp_y = 0\<rparr>,
         \<lparr>smp_t = 400, smp_y = 1 / 10\<rparr>],
      peaks = [- 600], troughs = [- 300], isSteady = False,
      lastCycleTime = 0, cycleCount = 0, onCycleCallback = True,
      currentCycleAngles =
        [posture 0, posture 1, posture 2, posture 3, posture 4, posture 5, posture 6,
         posture 7, posture 8, posture 9, posture 10, posture 11, posture 12, posture 13,
         posture 14, posture 15]\<rparr>"

text \<open>
  A listener is registered, then 31 frames 50 ms apart with angles: maxima at 250, 650 and
  1250 ms, so a period of 400 ms (150 RPM) followed by one of 600 ms (100 RPM).
\<close>

definition hesitantRide :: "event list" where
  "hesitantRide =
     [OnCycle,
      AddSample 0 ((- (1 / 10))) (Some (posture 0)),
      AddSample 50 (0) (Some (posture 1)),
      AddSample 100 (1 / 10) (Some (posture 2)),
      AddSample 150 (1 / 5) (Some (posture 3)),
      AddSample 200 (3 / 10) (Some (posture 4)),
      AddSample 250 (2 / 5) (Some (posture 5)),
      AddSample 300 (3 / 10) (Some (posture 6)),
      AddSample 350 (1 / 5) (Some (posture 7)),
      AddSample 400 (1 / 10) (Some (posture 8)),
      AddSample 450 (0) (Some (posture 9)),
      AddSample 500 (1 / 10) (Some (posture 10)),
      AddSample 550 (1 / 5) (Some (posture 11)),
      AddSample 600 (3 / 10) (Some (posture 12)),
      AddSample 650 (2 / 5) (Some (posture 13)),
      AddSample 700 (3 / 10) (Some (posture 14)),
      AddSample 750 (1 / 5) (Some (posture 15)),
      AddSample 800 (1 / 10) (Some (posture 16)),
      AddSample 850 (0) (Some (posture 17)),
      AddSample 900 ((- (1 / 10))) (Some (posture 18)),
      AddSample 950 ((- (1 / 5))) (Some (posture 19)),
      AddSample 1000 ((- (1 / 10))) (Some (posture 20)),
      AddSample 1050 (0) (Some (posture 21)),
      AddSample 1100 (1 / 10) (Some (posture 22)),
      AddSample 1150 (1 / 5) (Some (posture 23)),
      AddSample 1200 (3 / 10) (Some (posture 24)),
      AddSample 1250 (2 / 5) (Some (posture 25)),
      AddSample 1300 (3 / 10) (Some (posture 26)),
      AddSample 1350 (1 / 5) (Some (posture 27)),
      AddSample 1400 (1 / 10) (Some (posture 28)),
      AddSample 1450 (0) (Some (posture 29)),
      AddSample 1500 ((- (1 / 10))) (Some (posture 30))]"

text \<open>
  The detector after the listener and the first 18 frames of \<open>hesitantRide\<close>. The next
  frame (at 900 ms) makes the maximum at 650 ms the candidate, 400 ms after the last peak.
\<close>

definition hesitantBefore18 :: detector where
  "hesitantBefore18 =
     \<lparr>samples =
        [\<lparr>smp_t = 0, smp_y = - (1 / 10)\<rparr>,
         \<lparr>smp_t = 50, smp_y = 0\<rparr>,
         \<lparr>smp_t = 100, smp_y = 1 / 10\<rparr>,
         \<lparr>smp_t = 150, smp_y = 1 / 5\<rparr>,
         \<lparr>smp_t = 200, smp_y = 3 / 10\<rparr>,
         \<lparr>smp_t = 250, smp_y = 2 / 5\<rparr>,
         \<lparr>smp_t = 300, smp_y = 3 / 10\<rparr>,
         \<lparr>smp_t = 350, smp_y = 1 / 5\<rparr>,
         \<lparr>smp_t = 400, smp_y = 1 / 10\<rparr>,
         \<lparr>smp_t = 450, smp_y = 0\<rparr>,
         \<lparr>smp_t = 500, smp_y = 1 / 10\<rparr>,
         \<lparr>smp_t = 550, smp_y = 1 / 5\<rparr>,
         \<lparr>smp_t = 600, smp_y = 3 / 10\<rparr>,
         \<lparr>smp_t = 650, smp_y = 2 / 5\<rparr>,
         \<lparr>smp_t = 700, smp_y = 3 / 10\<rparr>,
         \<lparr>smp_t = 750, smp_y = 1 / 5\<rparr>,
         \<lparr>smp_t = 800, smp_y = 1 / 10\<rparr>,
         \<lparr>smp_t = 850, smp_y = 0\<rparr>],
      peaks = [250], troughs = [450], isSteady = False,
      lastCycleTime = 0, cycleCount = 0, onCycleCallback = True,
      currentCycleAngles =
        [posture 0, posture 1, posture 2, posture 3, posture 4, posture 5, posture 6,
         posture 7, posture 8, posture 9, posture 10, posture 11, posture 12, posture 13,
         posture 14, posture 15, posture 16, posture 17]\<rparr>"

text \<open>
  The detector after the listener and the first 30 frames of \<open>hesitantRide\<close>.
\<close>

definition hesitantBeforeLast :: detector where
  "hesitantBeforeLast =
     \<lparr>samples =
        [\<lparr>smp_t = 0, smp_y = - (1 / 10)\<rparr>,
         \<lparr>smp_t = 50, smp_y = 0\<rparr>,
         \<lparr>smp_t = 100, smp_y = 1 / 10\<rparr>,
         \<lparr>smp_t = 150, smp_y = 1 / 5\<rparr>,
         \<lparr>smp_t = 200, smp_y = 3 / 10\<rparr>,
         \<lparr>smp_t = 250, smp_y = 2 / 5\<rparr>,
         \<lparr>smp_t = 300, smp_y = 3 / 10\<rparr>,
         \<lparr>smp_t = 350, smp_y = 1 / 5\<rparr>,
         \<lparr>smp_t = 400, smp_y = 1 / 10\<rparr>,
         \<lparr>smp_t = 450, smp_y = 0\<rparr>,
         \<lparr>smp_t = 500, smp_y = 1 / 10\<rparr>,
         \<lparr>smp_t = 550, smp_y = 1 / 5\<rparr>,
         \<lparr>smp_t = 600, smp_y = 3 / 10\<rparr>,
         \<lparr>smp_t = 650, smp_y = 2 / 5\<rparr>,
         \<lparr>smp_t = 700, smp_y = 3 / 10\<rparr>,
         \<lparr>smp_t = 750, smp_y = 1 / 5\<rparr>,
         \<lparr>smp_t = 800, smp_y = 1 / 10\<rparr>,
         \<lparr>smp_t = 850, smp_y = 0\<rparr>,
         \<lparr>smp_t = 900, smp_y = - (1 / 10)\<rparr>,
         \<lparr>smp_t = 950, smp_y = - (1 / 5)\<rparr>,
         \<lparr>smp_t = 1000, smp_y = - (1 / 10)\<rparr>,
         \<lparr>smp_t = 1050, smp_y = 0\<rparr>,
         \<lparr>smp_t = 1100, smp_y = 1 / 10\<rparr>,
         \<lparr>smp_t = 1150, smp_y = 1 / 5\<rparr>,
         \<lparr>smp_t = 1200, smp_y = 3 / 10\<rparr>,
         \<lparr>smp_t = 1250, smp_y = 2 / 5\<rparr>,
         \<lparr>smp_t = 1300, smp_y = 3 / 10\<rparr>,
         \<lparr>smp_t = 1350, smp_y = 1 / 5\<rparr>,
         \<lparr>smp_t = 1400, smp_y = 1 / 10\<rparr>,
         \<lparr>smp_t = 1450, smp_y = 0\<rparr>],
      peaks = [250, 650], troughs = [450, 950], isSteady = False,
      lastCycleTime = 0, cycleCount = 0, onCycleCallback = True,
      currentCycleAngles =
        [posture 0, posture 1, posture 2, posture 3, posture 4, posture 5, posture 6,
         posture 7, posture 8, posture 9, posture 10, posture 11, posture 12, posture 13,
         posture 14, posture 15, posture 16, posture 17, posture 18, posture 19,
         posture 20, posture 21, posture 22, posture 23, posture 24, posture 25,
         posture 26, posture 27, posture 28, posture 29]\<rparr>"

text \<open>
  Two sessions of two cycles. In the first the mean knee angle is 123, 12 degrees below the
  knee range; the mean hip angle 71 is in range, the mean torso angle 60 is 5 degrees above
  and the mean elbow angle 185 is 15 degrees above. In the second the mean knee angle is
  127, 8 degrees below.
\<close>

definition kneeLowSession :: "cycle_summary list" where
  "kneeLowSession =
     [\<lparr>cycleNumber = 1, timestamp = 1000, rpm = 90,
        angles = \<lparr>knee_max = 120, hip_min = 70, torso_avg = 58, elbow_avg = 185\<rparr>\<rparr>,
      \<lparr>cycleNumber = 2, timestamp = 1700, rpm = 88,
        angles = \<lparr>knee_max = 126, hip_min = 72, torso_avg = 62, elbow_avg = 185\<rparr>\<rparr>]"

definition kneeNearSession :: "cycle_summary list" where
  "kneeNearSession =
     [\<lparr>cycleNumber = 1, timestamp = 1000, rpm = 90,
        angles = \<lparr>knee_max = 124, hip_min = 70, torso_avg = 58, elbow_avg = 185\<rparr>\<rparr>,
      \<lparr>cycleNumber = 2, timestamp = 1700, rpm = 88,
        angles = \<lparr>knee_max = 130, hip_min = 72, torso_avg = 62, elbow_avg = 185\<rparr>\<rparr>]"

text \<open>
  A frame of 33 landmarks, the even ones with visibility 0.9 and the odd ones without a
  visibility; the same frame with landmark 25 (the left knee) at visibility 0.5; and its
  first 20 landmarks only.
\<close>

definition fullFrame :: "landmark option list" where
  "fullFrame =
     map (\<lambda>i. Some \<lparr>lm_x = real i / 100, lm_y = real (i mod 7) / 10,
                      visibility = (if even i then Some (9 / 10) else None)\<rparr>) [0 ..< 33]"

definition dimFrame :: "landmark option list" where
  "dimFrame = fullFrame[25 := Some \<lparr>lm_x = 1 / 4, lm_y = 2 / 5, visibility = Some (1 / 2)\<rparr>]"

definition shortFrame :: "landmark option list" where
  "shortFrame = take 20 fullFrame"

section \<open>Trimming: fixed points, idempotence, trailing window\<close>

lemma trimCycles_short: "length xs \<le> 1 \<Longrightarrow> trimCycles xs = xs"
  by (simp add: trimCycles_def)

lemma trimCycles_small_span: "sessionSpan xs \<le> 5000 \<Longrightarrow> trimCycles xs = xs"
  by (simp add: trimCycles_def sessionSpan_def TRIM_END_MS_def Let_def)

lemma trimCycles_long:
  "\<not> (length xs \<le> 1 \<or> sessionSpan xs \<le> 5000) \<Longrightarrow>
   trimCycles xs = filter (\<lambda>c. timestamp c \<le> timestamp (last xs) - 5000) xs"
  by (simp add: trimCycles_def sessionSpan_def TRIM_END_MS_def Let_def)

lemma trimCycles_fixed_iff:
  "trimCycles xs = xs \<longleftrightarrow> length xs \<le> 1 \<or> sessionSpan xs \<le> 5000"
proof
  assume fixed: "trimCycles xs = xs"
  show "length xs \<le> 1 \<or> sessionSpan xs \<le> 5000"
  proof (rule ccontr)
    assume long: "\<not> (length xs \<le> 1 \<or> sessionSpan xs \<le> 5000)"
    then have "last xs \<notin> set (trimCycles xs)" by (simp add: trimCycles_long)
    moreover from long have "xs \<noteq> []" by auto
    then have "last xs \<in> set xs" by simp
    ultimately show False using fixed by simp
  qed
next
  assume "length xs \<le> 1 \<or> sessionSpan xs \<le> 5000"
  then show "trimCycles xs = xs"
    using trimCycles_short trimCycles_small_span by blast
qed

lemma filter_sorted_takeWhile:
  "sorted (map timestamp xs) \<Longrightarrow>
   filter (\<lambda>c. timestamp c \<le> b) xs = takeWhile (\<lambda>c. timestamp c \<le> b) xs"
proof (induction xs)
  case Nil
  show ?case by simp
next
  case (Cons x xs)
  show ?case
  proof (cases "timestamp x \<le> b")
    case True
    with Cons show ?thesis by simp
  next
    case False
    with Cons.prems have "\<forall>c \<in> set xs. \<not> timestamp c \<le> b" by fastforce
    then have "filter (\<lambda>c. timestamp c \<le> b) xs = []" by (simp add: filter_empty_conv)
    with False show ?thesis by simp
  qed
qed

lemma hd_filter_first:
  assumes "xs \<noteq> []" and "P (hd xs)"
  shows "hd (filter P xs) = hd xs" and "filter P xs \<noteq> []"
  using assms by (cases xs; simp)+






text \<open>
  Claim C9. A session with at most one entry, or spanning at most 5000 ms, is returned
  unchanged. Any other session loses exactly the entries whose timestamp is later than
  5000 ms before the last timestamp (an entry exactly 5000 ms before the last one is kept),
  and it does lose some. The decision reads timestamps only; on a session ordered by
  timestamp the result is therefore an initial segment of the input.
\<close>

theorem trimCycles_by_timestamp:
  "(length xs \<le> 1 \<or> sessionSpan xs \<le> 5000 \<longrightarrow> trimCycles xs = xs) \<and>
   (\<not> (length xs \<le> 1 \<or> sessionSpan xs \<le> 5000) \<longrightarrow>
      trimCycles xs = filter (\<lambda>c. \<not> timestamp (last xs) - 5000 < timestamp c) xs \<and>
      trimCycles xs \<noteq> xs) \<and>
   (sorted (map timestamp xs) \<longrightarrow> prefix (trimCycles xs) xs)"
proof (intro conjI impI)
  assume "length xs \<le> 1 \<or> sessionSpan xs \<le> 5000"
  then show "trimCycles xs = xs" using trimCycles_fixed_iff by blast
next
  assume long: "\<not> (length xs \<le> 1 \<or> sessionSpan xs \<le> 5000)"
  then show "trimCycles xs = filter (\<lambda>c. \<not> timestamp (last xs) - 5000 < timestamp c) xs"
    by (simp add: trimCycles_long not_less)
  from long show "trimCycles xs \<noteq> xs" using trimCycles_fixed_iff by blast
next
  assume srt: "sorted (map timestamp xs)"
  show "prefix (trimCycles xs) xs"
  proof (cases "length xs \<le> 1 \<or> sessionSpan xs \<le> 5000")
    case True
    then have "trimCycles xs = xs" using trimCycles_fixed_iff by blast
    then show ?thesis by simp
  next
    case False
    then have "trimCycles xs = takeWhile (\<lambda>c. timestamp c \<le> timestamp (last xs) - 5000) xs"
      using srt by (simp add: trimCycles_long filter_sorted_takeWhile)
    then show ?thesis by (simp add: takeWhile_is_prefix)
  qed
qed

text \<open>
  Claim C9, two instances: a session of 6500 ms loses its cycles at 6000 and 6500 ms, and a
  session of 4000 ms is returned as it is.
\<close>

theorem trimCycles_by_timestamp_witness:
  "\<not> (length [cyc 1 0, cyc 2 1000, cyc 3 6000, cyc 4 6500] \<le> 1 \<or>
      sessionSpan [cyc 1 0, cyc 2 1000, cyc 3 6000, cyc 4 6500] \<le> 5000) \<and>
   sorted (map timestamp [cyc 1 0, cyc 2 1000, cyc 3 6000, cyc 4 6500]) \<and>
   trimCycles [cyc 1 0, cyc 2 1000, cyc 3 6000, cyc 4 6500] = [cyc 1 0, cyc 2 1000] \<and>
   prefix (trimCycles [cyc 1 0, cyc 2 1000, cyc 3 6000, cyc 4 6500])
     [cyc 1 0, cyc 2 1000, cyc 3 6000, cyc 4 6500] \<and>
   (length [cyc 1 0, cyc 2 4000] \<le> 1 \<or> sessionSpan [cyc 1 0, cyc 2 4000] \<le> 5000) \<and>
   trimCycles [cyc 1 0, cyc 2 4000] = [cyc 1 0, cyc 2 4000]"
  using trimCycles_by_timestamp [of "[cyc 1 0, cyc 2 1000, cyc 3 6000, cyc 4 6500]"]
    trimCycles_by_timestamp [of "[cyc 1 0, cyc 2 4000]"]
  by (simp add: sessionSpan_def cyc_def)


section \<open>The engine: steadiness and the cycle check\<close>

lemma checkSteady_fields:
  "cycleCount (checkSteady s) = cycleCount s"
  "lastCycleTime (checkSteady s) = lastCycleTime s"
  "currentCycleAngles (checkSteady s) = currentCycleAngles s"
  "onCycleCallback (checkSteady s) = onCycleCallback s"
  "peaks (checkSteady s) = peaks s"
  "troughs (checkSteady s) = troughs s"
  "samples (checkSteady s) = samples s"
  by (simp_all add: checkSteady_def Let_def)

lemma checkCycleComplete_rejected:
  "\<not> cycleAccepted s pt \<Longrightarrow> checkCycleComplete s pt = (s, [])"
  by (auto simp add: checkCycleComplete_def cycleAccepted_def Let_def
      MIN_CADENCE_RPM_def MAX_CADENCE_RPM_def)

lemma checkCycleComplete_accepted:
  "cycleAccepted s pt \<Longrightarrow>
   checkCycleComplete s pt =
     (checkSteady (s\<lparr>cycleCount := cycleCount s + 1, lastCycleTime := pt,
                      currentCycleAngles := []\<rparr>),
      if currentCycleAngles s \<noteq> [] \<and> onCycleCallback s
      then [cycleSummary (cycleCount s + 1) pt
              (60000 / (pt - peaks s ! (length (peaks s) - 2))) (currentCycleAngles s)]
      else [])"
  by (auto simp add: checkCycleComplete_def cycleAccepted_def Let_def
      MIN_CADENCE_RPM_def MAX_CADENCE_RPM_def)

lemma Math_max_Max: "vs \<noteq> [] \<Longrightarrow> Math_max vs = Max (set vs)"
proof (cases vs)
  case Nil
  assume "vs \<noteq> []"
  with Nil show ?thesis by simp
next
  case (Cons a list)
  then show ?thesis using Max.set_eq_fold [of a list] by simp
qed

lemma Math_min_Min: "vs \<noteq> [] \<Longrightarrow> Math_min vs = Min (set vs)"
proof (cases vs)
  case Nil
  assume "vs \<noteq> []"
  with Nil show ?thesis by simp
next
  case (Cons a list)
  then show ?thesis using Min.set_eq_fold [of a list] by simp
qed

lemma last4:
  assumes "4 \<le> length xs"
  shows "\<exists>pre a b c d. xs = pre @ [a, b, c, d]"
proof -
  define r where "r = drop (length xs - 4) xs"
  have "length r = Suc (Suc (Suc (Suc 0)))" using assms by (simp add: r_def)
  then obtain a b c d where "r = [a, b, c, d]"
    by (auto simp add: length_Suc_conv)
  then have "xs = take (length xs - 4) xs @ [a, b, c, d]"
    unfolding r_def by (metis append_take_drop_id)
  then show ?thesis by blast
qed

lemma slice_last_four: "slice_last 4 (pre @ [a, b, c, d]) = [a, b, c, d]"
  by (simp add: slice_last_def)

lemma steadyOf_four:
  "steadyOf (pre @ [a, b, c, d]) =
     ((b - a + (c - b) + (d - c)) / 3 \<noteq> 0 \<and>
      max (relativeDeviation (b - a) ((b - a + (c - b) + (d - c)) / 3))
        (max (relativeDeviation (c - b) ((b - a + (c - b) + (d - c)) / 3))
             (relativeDeviation (d - c) ((b - a + (c - b) + (d - c)) / 3))) < 25 / 100)"
proof -
  have n: "length (pre @ [a, b, c, d]) = length pre + 4" by simp
  have i4: "(pre @ [a, b, c, d]) ! (length pre + 4 - 4) = a" by simp
  have i3: "(pre @ [a, b, c, d]) ! (length pre + 4 - 3) = b" by (simp add: nth_append)
  have i2: "(pre @ [a, b, c, d]) ! (length pre + 4 - 2) = c" by (simp add: nth_append)
  have i1: "(pre @ [a, b, c, d]) ! (length pre + 4 - 1) = d" by (simp add: nth_append)
  show ?thesis
    unfolding steadyOf_def Let_def n i4 i3 i2 i1 by simp
qed

lemma checkSteady_four:
  assumes "peaks s = pre @ [a, b, c, d]"
  shows "isSteady (checkSteady s) = steadyOf (peaks s)"
proof -
  have len: "\<not> length (peaks s) < MIN_CYCLES_FOR_STEADY + 1"
    using assms by (simp add: MIN_CYCLES_FOR_STEADY_def)
  have sl: "slice_last (MIN_CYCLES_FOR_STEADY + 1) (peaks s) = [a, b, c, d]"
    using assms slice_last_four [of pre a b c d] by (simp add: MIN_CYCLES_FOR_STEADY_def)
  have per: "map (\<lambda>i. [a, b, c, d] ! i - [a, b, c, d] ! (i - 1)) [1 ..< length [a, b, c, d]]
               = [b - a, c - b, d - c]"
    by (simp add: upt_conv_Cons)
  have "isSteady (checkSteady s) =
     ((b - a + (c - b) + (d - c)) / 3 \<noteq> 0 \<and>
      max (relativeDeviation (b - a) ((b - a + (c - b) + (d - c)) / 3))
        (max (relativeDeviation (c - b) ((b - a + (c - b) + (d - c)) / 3))
             (relativeDeviation (d - c) ((b - a + (c - b) + (d - c)) / 3))) < 25 / 100)"
    unfolding checkSteady_def Let_def sl per using len
    by (simp add: MAX_PERIOD_VARIATION_def relativeDeviation_def max.commute max.left_commute)
  then show ?thesis using assms steadyOf_four [of pre a b c d] by simp
qed

lemma checkSteady_few: "length (peaks s) < 4 \<Longrightarrow> \<not> isSteady (checkSteady s)"
  by (simp add: checkSteady_def MIN_CYCLES_FOR_STEADY_def)

lemma steadyOf_few: "length history < 4 \<Longrightarrow> \<not> steadyOf history"
  by (simp add: steadyOf_def)

lemma checkSteady_steadyOf: "isSteady (checkSteady s) = steadyOf (peaks s)"
proof (cases "length (peaks s) < 4")
  case True
  then show ?thesis by (simp add: checkSteady_few steadyOf_few)
next
  case False
  then obtain pre a b c d where "peaks s = pre @ [a, b, c, d]"
    using last4 [of "peaks s"] by auto
  then show ?thesis by (rule checkSteady_four)
qed


section \<open>The engine: one call of addSample\<close>

lemma afterPeak_rejected:
  assumes "\<not> (peakAccepted s \<and>
             cycleAccepted (s\<lparr>peaks := peaks s @ [candidateTime s]\<rparr>) (candidateTime s))"
  shows "snd (afterPeak s) = []"
    and "cycleCount (fst (afterPeak s)) = cycleCount s"
    and "lastCycleTime (fst (afterPeak s)) = lastCycleTime s"
    and "isSteady (fst (afterPeak s)) = isSteady s"
    and "currentCycleAngles (fst (afterPeak s)) = currentCycleAngles s"
    and "onCycleCallback (fst (afterPeak s)) = onCycleCallback s"
    and "samples (fst (afterPeak s)) = samples s"
    and "peaks (fst (afterPeak s)) = (if peakAccepted s then peaks s @ [candidateTime s] else peaks s)"
  using assms by (auto simp add: afterPeak_def checkCycleComplete_rejected)

lemma afterPeak_accepted:
  assumes "peakAccepted s"
    and "cycleAccepted (s\<lparr>peaks := peaks s @ [candidateTime s]\<rparr>) (candidateTime s)"
  shows "snd (afterPeak s) =
           (if currentCycleAngles s \<noteq> [] \<and> onCycleCallback s
            then [cycleSummary (cycleCount s + 1) (candidateTime s)
                    (60000 / (candidateTime s - last (peaks s))) (currentCycleAngles s)]
            else [])"
    and "cycleCount (fst (afterPeak s)) = cycleCount s + 1"
    and "lastCycleTime (fst (afterPeak s)) = candidateTime s"
    and "isSteady (fst (afterPeak s)) = steadyOf (peaks s @ [candidateTime s])"
    and "currentCycleAngles (fst (afterPeak s)) = []"
    and "onCycleCallback (fst (afterPeak s)) = onCycleCallback s"
    and "samples (fst (afterPeak s)) = samples s"
    and "peaks (fst (afterPeak s)) = peaks s @ [candidateTime s]"
proof -
  let ?p = "s\<lparr>peaks := peaks s @ [candidateTime s]\<rparr>"
  from assms(2) have "peaks s \<noteq> []" by (auto simp add: cycleAccepted_def)
  then have prev: "peaks ?p ! (length (peaks ?p) - 2) = last (peaks s)"
    by (simp add: nth_append last_conv_nth)
  have ap: "afterPeak s = checkCycleComplete ?p (candidateTime s)"
    using assms(1) by (simp add: afterPeak_def)
  note acc = checkCycleComplete_accepted [OF assms(2)]
  show "snd (afterPeak s) =
           (if currentCycleAngles s \<noteq> [] \<and> onCycleCallback s
            then [cycleSummary (cycleCount s + 1) (candidateTime s)
                    (60000 / (candidateTime s - last (peaks s))) (currentCycleAngles s)]
            else [])"
    unfolding ap acc prev by simp
  show "cycleCount (fst (afterPeak s)) = cycleCount s + 1"
    unfolding ap acc by (simp add: checkSteady_fields)
  show "lastCycleTime (fst (afterPeak s)) = candidateTime s"
    unfolding ap acc by (simp add: checkSteady_fields)
  show "isSteady (fst (afterPeak s)) = steadyOf (peaks s @ [candidateTime s])"
    unfolding ap acc by (simp add: checkSteady_steadyOf)
  show "currentCycleAngles (fst (afterPeak s)) = []"
    unfolding ap acc by (simp add: checkSteady_fields)
  show "onCycleCallback (fst (afterPeak s)) = onCycleCallback s"
    unfolding ap acc by (simp add: checkSteady_fields)
  show "samples (fst (afterPeak s)) = samples s"
    unfolding ap acc by (simp add: checkSteady_fields)
  show "peaks (fst (afterPeak s)) = peaks s @ [candidateTime s]"
    unfolding ap acc by (simp add: checkSteady_fields)
qed

lemma peakAccepted_length: "peakAccepted s \<Longrightarrow> \<not> length (samples s) < lookback * 2 + 1"
  by (simp add: peakAccepted_def Let_def)

lemma afterPeak_short: "length (samples s) < lookback * 2 + 1 \<Longrightarrow> afterPeak s = (s, [])"
  using peakAccepted_length [of s] by (auto simp add: afterPeak_def)

lemma detectPeaks_fields:
  "snd (detectPeaks s ts) = snd (afterPeak s)"
  "cycleCount (fst (detectPeaks s ts)) = cycleCount (fst (afterPeak s))"
  "lastCycleTime (fst (detectPeaks s ts)) = lastCycleTime (fst (afterPeak s))"
  "isSteady (fst (detectPeaks s ts)) = isSteady (fst (afterPeak s))"
  "currentCycleAngles (fst (detectPeaks s ts)) = currentCycleAngles (fst (afterPeak s))"
  "onCycleCallback (fst (detectPeaks s ts)) = onCycleCallback (fst (afterPeak s))"
  "samples (fst (detectPeaks s ts)) = samples (fst (afterPeak s))"
  by (simp_all add: detectPeaks_def Let_def afterPeak_short)

lemma detectPeaks_peaks:
  "set (peaks (fst (detectPeaks s ts))) \<subseteq> set (peaks (fst (afterPeak s)))"
  by (auto simp add: detectPeaks_def Let_def afterPeak_short dest: set_dropWhileD)

lemma admitted_fields:
  "cycleCount (admitted s ts y angs) = cycleCount s"
  "lastCycleTime (admitted s ts y angs) = lastCycleTime s"
  "isSteady (admitted s ts y angs) = isSteady s"
  "currentCycleAngles (admitted s ts y angs) = buffered s angs"
  "onCycleCallback (admitted s ts y angs) = onCycleCallback s"
  "peaks (admitted s ts y angs) = peaks s"
  by (simp_all add: admitted_def buffered_def Let_def split: option.split)

lemma admitted_samples:
  "set (samples (admitted s ts y angs)) \<subseteq> insert \<lparr>smp_t = ts, smp_y = y\<rparr> (set (samples s))"
  by (auto simp add: admitted_def Let_def split: option.split dest: set_dropWhileD)

lemma addSample_fields:
  "snd (addSample s ts y angs) = snd (afterPeak (admitted s ts y angs))"
  "cycleCount (fst (addSample s ts y angs)) = cycleCount (fst (afterPeak (admitted s ts y angs)))"
  "lastCycleTime (fst (addSample s ts y angs)) =
     lastCycleTime (fst (afterPeak (admitted s ts y angs)))"
  "isSteady (fst (addSample s ts y angs)) = isSteady (fst (afterPeak (admitted s ts y angs)))"
  "currentCycleAngles (fst (addSample s ts y angs)) =
     currentCycleAngles (fst (afterPeak (admitted s ts y angs)))"
  "onCycleCallback (fst (addSample s ts y angs)) =
     onCycleCallback (fst (afterPeak (admitted s ts y angs)))"
  "samples (fst (addSample s ts y angs)) = samples (admitted s ts y angs)"
proof -
  have short: "length (samples (admitted s ts y angs)) < 10 \<Longrightarrow>
      afterPeak (admitted s ts y angs) = (admitted s ts y angs, [])"
    by (rule afterPeak_short) (simp add: lookback_def)
  have smp: "samples (fst (afterPeak (admitted s ts y angs))) = samples (admitted s ts y angs)"
    using afterPeak_rejected(7) [of "admitted s ts y angs"]
      afterPeak_accepted(7) [of "admitted s ts y angs"] by blast
  show "snd (addSample s ts y angs) = snd (afterPeak (admitted s ts y angs))"
    using short by (simp add: addSample_def Let_def detectPeaks_fields)
  show "cycleCount (fst (addSample s ts y angs)) =
      cycleCount (fst (afterPeak (admitted s ts y angs)))"
    using short by (simp add: addSample_def Let_def detectPeaks_fields)
  show "lastCycleTime (fst (addSample s ts y angs)) =
     lastCycleTime (fst (afterPeak (admitted s ts y angs)))"
    using short by (simp add: addSample_def Let_def detectPeaks_fields)
  show "isSteady (fst (addSample s ts y angs)) =
      isSteady (fst (afterPeak (admitted s ts y angs)))"
    using short by (simp add: addSample_def Let_def detectPeaks_fields)
  show "currentCycleAngles (fst (addSample s ts y angs)) =
     currentCycleAngles (fst (afterPeak (admitted s ts y angs)))"
    using short by (simp add: addSample_def Let_def detectPeaks_fields)
  show "onCycleCallback (fst (addSample s ts y angs)) =
     onCycleCallback (fst (afterPeak (admitted s ts y angs)))"
    using short by (simp add: addSample_def Let_def detectPeaks_fields)
  show "samples (fst (addSample s ts y angs)) = samples (admitted s ts y angs)"
    using short smp by (simp add: addSample_def Let_def detectPeaks_fields)
qed

lemma addSample_peaks:
  "set (peaks (fst (addSample s ts y angs))) \<subseteq>
     set (peaks (fst (afterPeak (admitted s ts y angs))))"
proof (cases "length (samples (admitted s ts y angs)) < 10")
  case True
  then have "afterPeak (admitted s ts y angs) = (admitted s ts y angs, [])"
    by (intro afterPeak_short) (simp add: lookback_def)
  with True show ?thesis by (simp add: addSample_def Let_def)
next
  case False
  then show ?thesis using detectPeaks_peaks by (simp add: addSample_def Let_def)
qed

text \<open>The two outcomes of a call of \<open>addSample\<close>.\<close>

lemma addSample_no_cycle:
  assumes "\<not> cycleCompleted s ts y angs"
  shows "snd (addSample s ts y angs) = []"
    and "cycleCount (fst (addSample s ts y angs)) = cycleCount s"
    and "lastCycleTime (fst (addSample s ts y angs)) = lastCycleTime s"
    and "isSteady (fst (addSample s ts y angs)) = isSteady s"
    and "currentCycleAngles (fst (addSample s ts y angs)) = buffered s angs"
    and "onCycleCallback (fst (addSample s ts y angs)) = onCycleCallback s"
  using assms afterPeak_rejected [of "admitted s ts y angs"]
  by (simp_all add: cycleCompleted_def Let_def addSample_fields admitted_fields)

lemma addSample_cycle:
  assumes "cycleCompleted s ts y angs"
  shows "snd (addSample s ts y angs) =
           (if buffered s angs \<noteq> [] \<and> onCycleCallback s
            then [cycleSummary (cycleCount s + 1) (candidateTime (admitted s ts y angs))
                    (60000 / (candidateTime (admitted s ts y angs) - last (peaks s)))
                    (buffered s angs)]
            else [])"
    and "cycleCount (fst (addSample s ts y angs)) = cycleCount s + 1"
    and "lastCycleTime (fst (addSample s ts y angs)) = candidateTime (admitted s ts y angs)"
    and "isSteady (fst (addSample s ts y angs)) =
           steadyOf (peaks s @ [candidateTime (admitted s ts y angs)])"
    and "currentCycleAngles (fst (addSample s ts y angs)) = []"
    and "onCycleCallback (fst (addSample s ts y angs)) = onCycleCallback s"
  using assms afterPeak_accepted [of "admitted s ts y angs"]
  by (simp_all add: cycleCompleted_def Let_def addSample_fields admitted_fields)


section \<open>The engine: sessions\<close>

lemma cycleNumber_cycleSummary: "cycleNumber (cycleSummary n pt cad buf) = n"
  by (simp add: cycleSummary_def)

lemma step_count:
  "cycleCount s \<le> cycleCount (fst (step s e))"
proof (cases e)
  case (AddSample ts y angs)
  then show ?thesis
    using addSample_no_cycle(2) [of s ts y angs] addSample_cycle(2) [of s ts y angs]
    by (cases "cycleCompleted s ts y angs") simp_all
next
  case OnCycle
  then show ?thesis by (simp add: onCycle_def)
qed

lemma addSample_emitted:
  assumes "sm \<in> set (snd (addSample s ts y angs))"
  shows "cycleCompleted s ts y angs"
    and "buffered s angs \<noteq> []"
    and "snd (addSample s ts y angs) = [sm]"
    and "cycleNumber sm = cycleCount s + 1"
    and "cycleCount (fst (addSample s ts y angs)) = cycleCount s + 1"
    and "angles sm = cycleAngleSummary (buffered s angs)"
    and "timestamp sm = lastCycleTime (fst (addSample s ts y angs))"
proof -
  show c: "cycleCompleted s ts y angs"
  proof (rule ccontr)
    assume "\<not> cycleCompleted s ts y angs"
    then have "snd (addSample s ts y angs) = []" by (rule addSample_no_cycle(1))
    with assms show False by simp
  qed
  from assms addSample_cycle(1) [OF c]
  have ne: "buffered s angs \<noteq> [] \<and> onCycleCallback s"
    by (auto split: if_splits)
  then show "buffered s angs \<noteq> []" by simp
  from ne addSample_cycle(1) [OF c]
  have out: "snd (addSample s ts y angs) =
      [cycleSummary (cycleCount s + 1) (candidateTime (admitted s ts y angs))
         (60000 / (candidateTime (admitted s ts y angs) - last (peaks s))) (buffered s angs)]"
    by simp
  with assms have sm: "sm = cycleSummary (cycleCount s + 1) (candidateTime (admitted s ts y angs))
         (60000 / (candidateTime (admitted s ts y angs) - last (peaks s))) (buffered s angs)"
    by simp
  from out sm show "snd (addSample s ts y angs) = [sm]" by simp
  from sm show "cycleNumber sm = cycleCount s + 1" by (simp add: cycleSummary_def)
  from c show "cycleCount (fst (addSample s ts y angs)) = cycleCount s + 1"
    by (rule addSample_cycle(2))
  from sm show "angles sm = cycleAngleSummary (buffered s angs)" by (simp add: cycleSummary_def)
  from sm addSample_cycle(3) [OF c]
  show "timestamp sm = lastCycleTime (fst (addSample s ts y angs))"
    by (simp add: cycleSummary_def)
qed

lemma addSample_at_most_one: "length (snd (addSample s ts y angs)) \<le> 1"
  using addSample_no_cycle(1) [of s ts y angs] addSample_cycle(1) [of s ts y angs]
  by (cases "cycleCompleted s ts y angs") simp_all

lemma step_emitted:
  assumes "sm \<in> set (snd (step s e))"
  shows "cycleNumber sm = cycleCount (fst (step s e))" and "cycleCount s < cycleNumber sm"
proof -
  from assms obtain ts y angs where e: "e = AddSample ts y angs"
    by (cases e) simp_all
  with assms have m: "sm \<in> set (snd (addSample s ts y angs))" by simp
  from addSample_emitted(4) [OF m] addSample_emitted(5) [OF m] e
  show "cycleNumber sm = cycleCount (fst (step s e))" and "cycleCount s < cycleNumber sm"
    by simp_all
qed

lemma run_count: "cycleCount s \<le> cycleCount (fst (run s es))"
proof (induction es arbitrary: s)
  case Nil
  show ?case by simp
next
  case (Cons e es)
  have "cycleCount s \<le> cycleCount (fst (step s e))" by (rule step_count)
  also have "\<dots> \<le> cycleCount (fst (run (fst (step s e)) es))" by (rule Cons.IH)
  finally show ?case by (simp add: Let_def)
qed

lemma run_numbers:
  "sorted_wrt (<) (map cycleNumber (snd (run s es))) \<and>
   (\<forall>sm \<in> set (snd (run s es)). cycleCount s < cycleNumber sm)"
proof (induction es arbitrary: s)
  case Nil
  show ?case by simp
next
  case (Cons e es)
  let ?s1 = "fst (step s e)"
  have ih: "sorted_wrt (<) (map cycleNumber (snd (run ?s1 es)))"
    and later: "\<forall>sm \<in> set (snd (run ?s1 es)). cycleCount ?s1 < cycleNumber sm"
    using Cons.IH [of ?s1] by simp_all
  have first: "sorted_wrt (<) (map cycleNumber (snd (step s e)))"
  proof (cases e)
    case (AddSample ts y angs)
    have "length (snd (addSample s ts y angs)) \<le> 1" by (rule addSample_at_most_one)
    then show ?thesis using AddSample
      by (cases "snd (addSample s ts y angs)") (simp_all add: sorted_wrt1 le_Suc_eq)
  next
    case OnCycle
    then show ?thesis by simp
  qed
  have cross: "\<forall>a \<in> set (snd (step s e)). \<forall>b \<in> set (snd (run ?s1 es)).
      cycleNumber a < cycleNumber b"
    using later step_emitted(1) [of _ s e] by auto
  have low: "\<forall>sm \<in> set (snd (step s e)). cycleCount s < cycleNumber sm"
    using step_emitted(2) [of _ s e] by blast
  have low2: "\<forall>sm \<in> set (snd (run ?s1 es)). cycleCount s < cycleNumber sm"
    using later step_count [of s e] by fastforce
  from ih first cross low low2 show ?case
    by (simp add: Let_def sorted_wrt_append) blast
qed

lemma run_no_cycle:
  "cycleCount (fst (run s es)) = cycleCount s \<Longrightarrow>
   currentCycleAngles (fst (run s es)) = currentCycleAngles s @ suppliedAngles es \<and>
   snd (run s es) = []"
proof (induction es arbitrary: s)
  case Nil
  show ?case by simp
next
  case (Cons e es)
  let ?s1 = "fst (step s e)"
  have a: "cycleCount s \<le> cycleCount ?s1" by (rule step_count)
  have b: "cycleCount ?s1 \<le> cycleCount (fst (run ?s1 es))" by (rule run_count)
  from Cons.prems have c: "cycleCount (fst (run ?s1 es)) = cycleCount s"
    by (simp add: Let_def)
  from a b c have same1: "cycleCount ?s1 = cycleCount s"
    and same2: "cycleCount (fst (run ?s1 es)) = cycleCount ?s1" by simp_all
  note ih = Cons.IH [OF same2]
  have head: "currentCycleAngles ?s1 = currentCycleAngles s @ suppliedAngles [e] \<and>
      snd (step s e) = []"
  proof (cases e)
    case (AddSample ts y angs)
    have nc: "\<not> cycleCompleted s ts y angs"
      using same1 AddSample addSample_cycle(2) [of s ts y angs] by auto
    show ?thesis
      using AddSample addSample_no_cycle(1) [OF nc] addSample_no_cycle(5) [OF nc]
      by (cases angs) (simp_all add: buffered_def)
  next
    case OnCycle
    then show ?thesis by (simp add: onCycle_def)
  qed
  have sup: "suppliedAngles (e # es) = suppliedAngles [e] @ suppliedAngles es"
  proof (cases e)
    case (AddSample ts y angs)
    then show ?thesis by (cases angs) simp_all
  next
    case OnCycle
    then show ?thesis by simp
  qed
  from ih head sup show ?case by (simp add: Let_def)
qed

lemma suppliedAngles_snoc:
  "suppliedAngles (es @ [AddSample ts y angs]) =
     suppliedAngles es @ (case angs of None \<Rightarrow> [] | Some a \<Rightarrow> [a])"
  by (induction es rule: suppliedAngles.induct) (simp_all split: option.split)


section \<open>The engine: timestamps of peaks and cycles\<close>

lemma run_no_cycle_time:
  "cycleCount (fst (run s es)) = cycleCount s \<Longrightarrow>
   lastCycleTime (fst (run s es)) = lastCycleTime s"
proof (induction es arbitrary: s)
  case Nil
  show ?case by simp
next
  case (Cons e es)
  let ?s1 = "fst (step s e)"
  have a: "cycleCount s \<le> cycleCount ?s1" by (rule step_count)
  have b: "cycleCount ?s1 \<le> cycleCount (fst (run ?s1 es))" by (rule run_count)
  from Cons.prems have c: "cycleCount (fst (run ?s1 es)) = cycleCount s"
    by (simp add: Let_def)
  from a b c have same1: "cycleCount ?s1 = cycleCount s"
    and same2: "cycleCount (fst (run ?s1 es)) = cycleCount ?s1" by simp_all
  have head: "lastCycleTime ?s1 = lastCycleTime s"
  proof (cases e)
    case (AddSample ts y angs)
    have nc: "\<not> cycleCompleted s ts y angs"
      using same1 AddSample addSample_cycle(2) [of s ts y angs] by auto
    show ?thesis using AddSample addSample_no_cycle(3) [OF nc] by simp
  next
    case OnCycle
    then show ?thesis by (simp add: onCycle_def)
  qed
  from Cons.IH [OF same2] head show ?case by (simp add: Let_def)
qed

lemma candidateTime_in_samples:
  assumes "peakAccepted a"
  shows "\<exists>sm \<in> set (samples a). candidateTime a = smp_t sm"
proof -
  from assms have "\<not> length (samples a) < lookback * 2 + 1" by (rule peakAccepted_length)
  then have "candidateIdx (samples a) < length (samples a)"
    by (simp add: candidateIdx_def lookback_def)
  then have "samples a ! candidateIdx (samples a) \<in> set (samples a)" by (rule nth_mem)
  then show ?thesis by (auto simp add: candidateTime_def)
qed

lemma afterPeak_peaks:
  "peaks (fst (afterPeak a)) = (if peakAccepted a then peaks a @ [candidateTime a] else peaks a)"
proof (cases "peakAccepted a \<and>
    cycleAccepted (a\<lparr>peaks := peaks a @ [candidateTime a]\<rparr>) (candidateTime a)")
  case True
  then show ?thesis using afterPeak_accepted(8) [of a] by simp
next
  case False
  then show ?thesis by (rule afterPeak_rejected(8))
qed

lemma accepted_period:
  assumes "cycleAccepted (a\<lparr>peaks := peaks a @ [ct]\<rparr>) ct"
  shows "peaks a \<noteq> []" and "500 \<le> ct - last (peaks a)"
proof -
  from assms show ne: "peaks a \<noteq> []" by (auto simp add: cycleAccepted_def)
  then have prev: "(peaks a @ [ct]) ! (length (peaks a @ [ct]) - 2) = last (peaks a)"
    by (simp add: nth_append last_conv_nth)
  define period where "period = ct - last (peaks a)"
  from assms prev have band: "period \<noteq> 0" "40 \<le> 60000 / period" "60000 / period \<le> 120"
    by (simp_all add: cycleAccepted_def Let_def period_def)
  have pos: "0 < period"
  proof (rule ccontr)
    assume "\<not> 0 < period"
    with band(1) have "period < 0" by simp
    then have "60000 / period < 0" by (simp add: divide_neg_pos)
    with band(2) show False by simp
  qed
  from band(3) pos have "60000 \<le> 120 * period" by (simp add: pos_divide_le_eq)
  then have "500 \<le> period" by simp
  then show "500 \<le> ct - last (peaks a)" by (simp add: period_def)
qed

lemma addSample_timesNonneg:
  assumes inv: "timesNonneg s" and ts: "0 \<le> ts"
  shows "timesNonneg (fst (addSample s ts y angs))"
proof -
  let ?a = "admitted s ts y angs"
  let ?r = "fst (addSample s ts y angs)"
  from inv have smp0: "\<forall>sm \<in> set (samples s). 0 \<le> smp_t sm"
    and pk0: "\<forall>p \<in> set (peaks s). 0 \<le> p"
    and lc0: "cycleCount s = 0 \<or> 500 \<le> lastCycleTime s"
    by (simp_all add: timesNonneg_def list_all_iff)
  have smpa: "\<forall>sm \<in> set (samples ?a). 0 \<le> smp_t sm"
    using admitted_samples [of s ts y angs] smp0 ts by auto
  have ct: "peakAccepted ?a \<Longrightarrow> 0 \<le> candidateTime ?a"
    using candidateTime_in_samples [of ?a] smpa by auto
  have "set (peaks ?r) \<subseteq> set (peaks (fst (afterPeak ?a)))" by (rule addSample_peaks)
  then have pk: "\<forall>p \<in> set (peaks ?r). 0 \<le> p"
    using pk0 ct by (auto simp add: afterPeak_peaks admitted_fields split: if_splits)
  have smp: "\<forall>sm \<in> set (samples ?r). 0 \<le> smp_t sm"
    using smpa by (simp add: addSample_fields)
  have lc: "cycleCount ?r = 0 \<or> 500 \<le> lastCycleTime ?r"
  proof (cases "cycleCompleted s ts y angs")
    case False
    then show ?thesis using lc0 by (simp add: addSample_no_cycle)
  next
    case True
    then have acc: "cycleAccepted (?a\<lparr>peaks := peaks ?a @ [candidateTime ?a]\<rparr>) (candidateTime ?a)"
      by (simp add: cycleCompleted_def Let_def)
    from accepted_period [OF acc]
    have ne: "peaks s \<noteq> []" and far: "500 \<le> candidateTime ?a - last (peaks s)"
      by (simp_all add: admitted_fields)
    from ne pk0 have "0 \<le> last (peaks s)" by simp
    with far have "500 \<le> candidateTime ?a" by simp
    with True show ?thesis by (simp add: addSample_cycle)
  qed
  from smp pk lc show ?thesis by (simp add: timesNonneg_def list_all_iff)
qed

lemma step_timesNonneg:
  "timesNonneg s \<Longrightarrow> nonnegTime e \<Longrightarrow> timesNonneg (fst (step s e))"
proof (cases e)
  case (AddSample ts y angs)
  assume "timesNonneg s" and "nonnegTime e"
  with AddSample show ?thesis by (simp add: addSample_timesNonneg)
next
  case OnCycle
  assume "timesNonneg s"
  with OnCycle show ?thesis by (simp add: onCycle_def timesNonneg_def)
qed

lemma run_timesNonneg:
  "timesNonneg s \<Longrightarrow> list_all nonnegTime es \<Longrightarrow> timesNonneg (fst (run s es))"
  by (induction es arbitrary: s) (simp_all add: Let_def step_timesNonneg)

lemma reset_timesNonneg: "timesNonneg reset"
  by (simp add: timesNonneg_def reset_def)


section \<open>The concrete sessions, evaluated\<close>

lemma run_snoc:
  "run s (es @ [e]) =
     (fst (step (fst (run s es)) e), snd (run s es) @ snd (step (fst (run s es)) e))"
  by (induction es arbitrary: s) (simp_all add: Let_def)

lemma steadyRide_prefix:
  "run reset (take 29 steadyRide) =
     (steadyBeforeLast,
      [\<lparr>cycleNumber = 1, timestamp = 1100, rpm = 100,
         angles = \<lparr>knee_max = 156, hip_min = 54, torso_avg = 48, elbow_avg = 160\<rparr>\<rparr>,
       \<lparr>cycleNumber = 2, timestamp = 1700, rpm = 100,
         angles = \<lparr>knee_max = 162, hip_min = 48, torso_avg = 119 / 2, elbow_avg = 160\<rparr>\<rparr>])"
  by code_simp

lemma steadyRide_split:
  "steadyRide = take 29 steadyRide @ [AddSample 2800 (1 / 5) (Some (posture 28))]"
  by (simp add: steadyRide_def)

lemma steadyRide_last_emits:
  "snd (addSample steadyBeforeLast 2800 (1 / 5) (Some (posture 28))) =
     [\<lparr>cycleNumber = 3, timestamp = 2300, rpm = 100,
        angles = \<lparr>knee_max = 168, hip_min = 42, torso_avg = 131 / 2, elbow_avg = 160\<rparr>\<rparr>]"
  by code_simp

lemma steadyRide_last_count:
  "cycleCount (fst (addSample steadyBeforeLast 2800 (1 / 5) (Some (posture 28)))) = 3"
  by code_simp

lemma steadyRide_last_time:
  "lastCycleTime (fst (addSample steadyBeforeLast 2800 (1 / 5) (Some (posture 28)))) = 2300"
  by code_simp

lemma steadyRide_last_steady:
  "isSteady (fst (addSample steadyBeforeLast 2800 (1 / 5) (Some (posture 28))))"
  by code_simp

lemma steadyRide_last_completed:
  "cycleCompleted steadyBeforeLast 2800 (1 / 5) (Some (posture 28))"
  by code_simp

lemma steadyRide_last_candidate:
  "candidateTime (admitted steadyBeforeLast 2800 (1 / 5) (Some (posture 28))) = 2300"
  by code_simp

lemma steadyRide_run:
  "fst (run reset steadyRide) = fst (addSample steadyBeforeLast 2800 (1 / 5) (Some (posture 28)))"
  "snd (run reset steadyRide) =
     [\<lparr>cycleNumber = 1, timestamp = 1100, rpm = 100,
        angles = \<lparr>knee_max = 156, hip_min = 54, torso_avg = 48, elbow_avg = 160\<rparr>\<rparr>,
      \<lparr>cycleNumber = 2, timestamp = 1700, rpm = 100,
        angles = \<lparr>knee_max = 162, hip_min = 48, torso_avg = 119 / 2, elbow_avg = 160\<rparr>\<rparr>,
      \<lparr>cycleNumber = 3, timestamp = 2300, rpm = 100,
        angles = \<lparr>knee_max = 168, hip_min = 42, torso_avg = 131 / 2, elbow_avg = 160\<rparr>\<rparr>]"
proof -
  have r: "run reset steadyRide =
      run reset (take 29 steadyRide @ [AddSample 2800 (1 / 5) (Some (posture 28))])"
    using steadyRide_split by simp
  show "fst (run reset steadyRide) =
      fst (addSample steadyBeforeLast 2800 (1 / 5) (Some (posture 28)))"
    unfolding r run_snoc steadyRide_prefix by simp
  show "snd (run reset steadyRide) =
     [\<lparr>cycleNumber = 1, timestamp = 1100, rpm = 100,
        angles = \<lparr>knee_max = 156, hip_min = 54, torso_avg = 48, elbow_avg = 160\<rparr>\<rparr>,
      \<lparr>cycleNumber = 2, timestamp = 1700, rpm = 100,
        angles = \<lparr>knee_max = 162, hip_min = 48, torso_avg = 119 / 2, elbow_avg = 160\<rparr>\<rparr>,
      \<lparr>cycleNumber = 3, timestamp = 2300, rpm = 100,
        angles = \<lparr>knee_max = 168, hip_min = 42, torso_avg = 131 / 2, elbow_avg = 160\<rparr>\<rparr>]"
    unfolding r run_snoc steadyRide_prefix using steadyRide_last_emits by simp
qed

lemma steadyRide_nonneg: "list_all nonnegTime steadyRide"
  by (simp add: steadyRide_def)

lemma earlyRide_prefix: "run reset (take 17 earlyRide) = (earlyBeforeLast, [])"
  by code_simp

lemma earlyRide_split:
  "earlyRide = take 17 earlyRide @ [AddSample 500 (1 / 5) (Some (posture 16))]"
  by (simp add: earlyRide_def)

lemma earlyRide_last_emits:
  "snd (addSample earlyBeforeLast 500 (1 / 5) (Some (posture 16))) =
     [\<lparr>cycleNumber = 1, timestamp = 0, rpm = 100,
        angles = \<lparr>knee_max = 156, hip_min = 54, torso_avg = 48, elbow_avg = 160\<rparr>\<rparr>]"
  by code_simp

lemma earlyRide_last_count:
  "cycleCount (fst (addSample earlyBeforeLast 500 (1 / 5) (Some (posture 16)))) = 1"
  by code_simp

lemma earlyRide_last_time:
  "lastCycleTime (fst (addSample earlyBeforeLast 500 (1 / 5) (Some (posture 16)))) = 0"
  by code_simp

lemma earlyRide_run:
  "fst (run reset earlyRide) = fst (addSample earlyBeforeLast 500 (1 / 5) (Some (posture 16)))"
  "snd (run reset earlyRide) =
     [\<lparr>cycleNumber = 1, timestamp = 0, rpm = 100,
        angles = \<lparr>knee_max = 156, hip_min = 54, torso_avg = 48, elbow_avg = 160\<rparr>\<rparr>]"
proof -
  have r: "run reset earlyRide =
      run reset (take 17 earlyRide @ [AddSample 500 (1 / 5) (Some (posture 16))])"
    using earlyRide_split by simp
  show "fst (run reset earlyRide) =
      fst (addSample earlyBeforeLast 500 (1 / 5) (Some (posture 16)))"
    unfolding r run_snoc earlyRide_prefix by simp
  show "snd (run reset earlyRide) =
     [\<lparr>cycleNumber = 1, timestamp = 0, rpm = 100,
        angles = \<lparr>knee_max = 156, hip_min = 54, torso_avg = 48, elbow_avg = 160\<rparr>\<rparr>]"
    unfolding r run_snoc earlyRide_prefix using earlyRide_last_emits by simp
qed

lemma hesitantRide_start: "run reset (take 19 hesitantRide) = (hesitantBefore18, [])"
  by code_simp

lemma hesitantRide_prefix: "run reset (take 31 hesitantRide) = (hesitantBeforeLast, [])"
  by code_simp

lemma hesitant18_peak:
  "peakAccepted (admitted hesitantBefore18 900 (- (1 / 10)) (Some (posture 18)))"
  by code_simp

lemma hesitant18_candidate:
  "candidateTime (admitted hesitantBefore18 900 (- (1 / 10)) (Some (posture 18))) = 650"
  by code_simp

lemma hesitant18_after:
  "peaks (fst (addSample hesitantBefore18 900 (- (1 / 10)) (Some (posture 18)))) = [250, 650]"
  by code_simp

lemma hesitantRide_last_emits:
  "snd (addSample hesitantBeforeLast 1500 (- (1 / 10)) (Some (posture 30))) =
     [\<lparr>cycleNumber = 1, timestamp = 1250, rpm = 100,
        angles = \<lparr>knee_max = 170, hip_min = 40, torso_avg = 55, elbow_avg = 160\<rparr>\<rparr>]"
  by code_simp

lemma hesitantRide_supplied:
  "suppliedAngles (take 31 hesitantRide @ [AddSample 1500 (- (1 / 10)) (Some (posture 30))]) =
     map posture [0 ..< 31]"
  by code_simp


section \<open>Rejected periods\<close>

text \<open>
  Claim C2. When a call of \<open>addSample\<close> accepts a new peak and the period from the previous
  peak gives a cadence outside 40 to 120 RPM (a period of 0 included, where the source
  computes Infinity), no summary is emitted and the cycle counter, the last-cycle time and
  the steadiness flag are what they were; the angle buffer is not flushed: it holds what it
  held plus this frame's angles, and \<open>_detectPeaks\<close> leaves it as it found it. The cycle
  check returns the detector it was given; only the peak history has gained the new peak.
\<close>

theorem out_of_band_period_discarded:
  assumes "peakAccepted (admitted s ts kneeY angs)"
    and "peaks s \<noteq> []"
    and "period = candidateTime (admitted s ts kneeY angs) - last (peaks s)"
    and "period = 0 \<or> 60000 / period < 40 \<or> 120 < 60000 / period"
  shows "snd (addSample s ts kneeY angs) = [] \<and>
         cycleCount (fst (addSample s ts kneeY angs)) = cycleCount s \<and>
         lastCycleTime (fst (addSample s ts kneeY angs)) = lastCycleTime s \<and>
         isSteady (fst (addSample s ts kneeY angs)) = isSteady s \<and>
         currentCycleAngles (fst (addSample s ts kneeY angs)) = buffered s angs \<and>
         currentCycleAngles (fst (detectPeaks (admitted s ts kneeY angs) ts)) =
           currentCycleAngles (admitted s ts kneeY angs) \<and>
         checkCycleComplete
           ((admitted s ts kneeY angs)
              \<lparr>peaks := peaks (admitted s ts kneeY angs) @
                          [candidateTime (admitted s ts kneeY angs)]\<rparr>)
           (candidateTime (admitted s ts kneeY angs)) =
           ((admitted s ts kneeY angs)
              \<lparr>peaks := peaks (admitted s ts kneeY angs) @
                          [candidateTime (admitted s ts kneeY angs)]\<rparr>, [])"
proof -
  let ?a = "admitted s ts kneeY angs"
  let ?p = "?a\<lparr>peaks := peaks ?a @ [candidateTime ?a]\<rparr>"
  have pk: "peaks ?a = peaks s" by (rule admitted_fields)
  have prev: "peaks ?p ! (length (peaks ?p) - 2) = last (peaks s)"
    using assms(2) pk by (simp add: nth_append last_conv_nth)
  have rej: "\<not> cycleAccepted ?p (candidateTime ?a)"
    using assms(3) assms(4) prev by (auto simp add: cycleAccepted_def Let_def)
  then have nc: "\<not> cycleCompleted s ts kneeY angs"
    by (simp add: cycleCompleted_def Let_def)
  have nr: "\<not> (peakAccepted ?a \<and> cycleAccepted ?p (candidateTime ?a))"
    using rej by simp
  have dp: "currentCycleAngles (fst (detectPeaks ?a ts)) = currentCycleAngles ?a"
    using afterPeak_rejected(5) [OF nr] by (simp add: detectPeaks_fields)
  from addSample_no_cycle [OF nc] dp checkCycleComplete_rejected [OF rej]
  show ?thesis by simp
qed

text \<open>
  Claim C2, an instance: in \<open>hesitantRide\<close>, frame 18 makes the maximum at 650 ms a peak,
  400 ms after the peak at 250 ms (150 RPM). Nothing is emitted, no cycle is counted, and
  the buffer keeps all 19 angle sets supplied so far.
\<close>

theorem out_of_band_period_discarded_witness:
  "peakAccepted (admitted hesitantBefore18 900 (- (1 / 10)) (Some (posture 18))) \<and>
   peaks hesitantBefore18 = [250] \<and>
   candidateTime (admitted hesitantBefore18 900 (- (1 / 10)) (Some (posture 18))) = 650 \<and>
   120 < 60000 / (650 - 250 :: real) \<and>
   snd (addSample hesitantBefore18 900 (- (1 / 10)) (Some (posture 18))) = [] \<and>
   cycleCount (fst (addSample hesitantBefore18 900 (- (1 / 10)) (Some (posture 18)))) = 0 \<and>
   lastCycleTime (fst (addSample hesitantBefore18 900 (- (1 / 10)) (Some (posture 18)))) = 0 \<and>
   \<not> isSteady (fst (addSample hesitantBefore18 900 (- (1 / 10)) (Some (posture 18)))) \<and>
   currentCycleAngles (fst (addSample hesitantBefore18 900 (- (1 / 10)) (Some (posture 18)))) =
     map posture [0 ..< 19] \<and>
   peaks (fst (addSample hesitantBefore18 900 (- (1 / 10)) (Some (posture 18)))) = [250, 650]"
proof -
  have h1: "peakAccepted (admitted hesitantBefore18 900 (- (1 / 10)) (Some (posture 18)))"
    by (rule hesitant18_peak)
  have f: "peaks hesitantBefore18 = [250]" "cycleCount hesitantBefore18 = 0"
    "lastCycleTime hesitantBefore18 = 0" "\<not> isSteady hesitantBefore18"
    by (simp_all add: hesitantBefore18_def)
  have h2: "peaks hesitantBefore18 \<noteq> []" by (simp add: f)
  have h3: "(400 :: real) =
      candidateTime (admitted hesitantBefore18 900 (- (1 / 10)) (Some (posture 18))) -
      last (peaks hesitantBefore18)"
    by (simp add: hesitant18_candidate f)
  have h4: "(400 :: real) = 0 \<or> 60000 / (400 :: real) < 40 \<or> 120 < 60000 / (400 :: real)"
    by simp
  have b: "buffered hesitantBefore18 (Some (posture 18)) = map posture [0 ..< 19]"
    by code_simp
  from out_of_band_period_discarded [OF h1 h2 h3 h4] h1 b f hesitant18_candidate
    hesitant18_after
  show ?thesis by simp
qed


section \<open>Emitted summaries\<close>

lemma cycleAngleSummary_fields:
  assumes "buf \<noteq> []"
  shows "knee_max (cycleAngleSummary buf) = Max (knee ` set buf)"
    and "hip_min (cycleAngleSummary buf) = Min (hip ` set buf)"
    and "torso_avg (cycleAngleSummary buf) = (\<Sum>a\<leftarrow>buf. torso a) / real (length buf)"
    and "elbow_avg (cycleAngleSummary buf) = (\<Sum>a\<leftarrow>buf. elbow a) / real (length buf)"
  using assms by (simp_all add: cycleAngleSummary_def Math_max_Max Math_min_Min)

lemma addSample_emitted_cadence:
  assumes "sm \<in> set (snd (addSample s ts y angs))"
  shows "timestamp sm = candidateTime (admitted s ts y angs)"
    and "rpm sm = round (60000 / (timestamp sm - last (peaks s)))"
proof -
  have c: "cycleCompleted s ts y angs" using assms by (rule addSample_emitted(1))
  from assms addSample_cycle(1) [OF c]
  have sm: "sm = cycleSummary (cycleCount s + 1) (candidateTime (admitted s ts y angs))
         (60000 / (candidateTime (admitted s ts y angs) - last (peaks s))) (buffered s angs)"
    by (auto split: if_splits)
  then show "timestamp sm = candidateTime (admitted s ts y angs)"
    by (simp add: cycleSummary_def)
  from sm show "rpm sm = round (60000 / (timestamp sm - last (peaks s)))"
    by (simp add: cycleSummary_def)
qed

lemma run_reset_numbers: "\<forall>sm \<in> set (snd (run reset es)). 1 \<le> cycleNumber sm"
  using run_numbers [of reset es] by (auto simp add: reset_def)

text \<open>
  Claim C3. A call of \<open>addSample\<close> emits at most one summary, and emits one only when it
  completes a cycle and the angle buffer (this frame's angles included) is non-empty. The
  summary carries the incremented cycle counter, the time of the peak that the call
  accepted (recorded as the last cycle time), the cadence 60000 / period rounded to an
  integer at most 1/2 away, the largest knee angle and the smallest hip angle of the
  buffer, and the means of its torso and elbow angles. Over a session, the cycle numbers
  of the emitted summaries increase strictly and lie above the counter the session started
  with; after a reset they are at least 1.
\<close>

theorem cycle_summary_contents:
  "length (snd (addSample s ts kneeY angs)) \<le> 1 \<and>
   (\<forall>sm \<in> set (snd (addSample s ts kneeY angs)).
      cycleCompleted s ts kneeY angs \<and>
      buffered s angs \<noteq> [] \<and>
      cycleNumber sm = cycleCount s + 1 \<and>
      cycleCount (fst (addSample s ts kneeY angs)) = cycleCount s + 1 \<and>
      timestamp sm = candidateTime (admitted s ts kneeY angs) \<and>
      timestamp sm = lastCycleTime (fst (addSample s ts kneeY angs)) \<and>
      rpm sm = round (60000 / (timestamp sm - last (peaks s))) \<and>
      \<bar>real_of_int (rpm sm) - 60000 / (timestamp sm - last (peaks s))\<bar> \<le> 1 / 2 \<and>
      knee_max (angles sm) = Max (knee ` set (buffered s angs)) \<and>
      hip_min (angles sm) = Min (hip ` set (buffered s angs)) \<and>
      torso_avg (angles sm) =
        (\<Sum>a\<leftarrow>buffered s angs. torso a) / real (length (buffered s angs)) \<and>
      elbow_avg (angles sm) =
        (\<Sum>a\<leftarrow>buffered s angs. elbow a) / real (length (buffered s angs))) \<and>
   sorted_wrt (<) (map cycleNumber (snd (run s es))) \<and>
   (\<forall>sm \<in> set (snd (run s es)). cycleCount s < cycleNumber sm) \<and>
   (\<forall>sm \<in> set (snd (run reset es)). 1 \<le> cycleNumber sm)"
proof (intro conjI ballI)
  show "length (snd (addSample s ts kneeY angs)) \<le> 1" by (rule addSample_at_most_one)
next
  fix sm
  assume m: "sm \<in> set (snd (addSample s ts kneeY angs))"
  note e = addSample_emitted [OF m]
  note c = addSample_emitted_cadence [OF m]
  note f = cycleAngleSummary_fields [OF e(2)]
  show "cycleCompleted s ts kneeY angs" by (rule e(1))
  show "buffered s angs \<noteq> []" by (rule e(2))
  show "cycleNumber sm = cycleCount s + 1" by (rule e(4))
  show "cycleCount (fst (addSample s ts kneeY angs)) = cycleCount s + 1" by (rule e(5))
  show "timestamp sm = candidateTime (admitted s ts kneeY angs)" by (rule c(1))
  show "timestamp sm = lastCycleTime (fst (addSample s ts kneeY angs))" by (rule e(7))
  show "rpm sm = round (60000 / (timestamp sm - last (peaks s)))" by (rule c(2))
  show "\<bar>real_of_int (rpm sm) - 60000 / (timestamp sm - last (peaks s))\<bar> \<le> 1 / 2"
    unfolding c(2) by (rule of_int_round_abs_le)
  show "knee_max (angles sm) = Max (knee ` set (buffered s angs))"
    unfolding e(6) by (rule f(1))
  show "hip_min (angles sm) = Min (hip ` set (buffered s angs))"
    unfolding e(6) by (rule f(2))
  show "torso_avg (angles sm) =
      (\<Sum>a\<leftarrow>buffered s angs. torso a) / real (length (buffered s angs))"
    unfolding e(6) by (rule f(3))
  show "elbow_avg (angles sm) =
      (\<Sum>a\<leftarrow>buffered s angs. elbow a) / real (length (buffered s angs))"
    unfolding e(6) by (rule f(4))
next
  show "sorted_wrt (<) (map cycleNumber (snd (run s es)))"
    using run_numbers [of s es] by simp
next
  fix sm
  assume "sm \<in> set (snd (run s es))"
  then show "cycleCount s < cycleNumber sm" using run_numbers [of s es] by simp
next
  fix sm
  assume "sm \<in> set (snd (run reset es))"
  then show "1 \<le> cycleNumber sm" using run_reset_numbers [of es] by simp
qed

text \<open>
  Claim C3, an instance: the last frame of \<open>steadyRide\<close> completes the third cycle, whose
  summary has number 3, the peak time 2300 ms, 100 RPM, and the extremes and means of the
  five angle sets buffered since the second cycle and of this frame's; the session emits
  the numbers 1, 2, 3.
\<close>

theorem cycle_summary_contents_witness:
  "snd (addSample steadyBeforeLast 2800 (1 / 5) (Some (posture 28))) =
     [\<lparr>cycleNumber = 3, timestamp = 2300, rpm = 100,
        angles = \<lparr>knee_max = 168, hip_min = 42, torso_avg = 131 / 2, elbow_avg = 160\<rparr>\<rparr>] \<and>
   cycleCount steadyBeforeLast = 2 \<and>
   last (peaks steadyBeforeLast) = 1700 \<and>
   buffered steadyBeforeLast (Some (posture 28)) = map posture [23 ..< 29] \<and>
   Max (knee ` set (buffered steadyBeforeLast (Some (posture 28)))) = 168 \<and>
   Min (hip ` set (buffered steadyBeforeLast (Some (posture 28)))) = 42 \<and>
   (\<Sum>a\<leftarrow>buffered steadyBeforeLast (Some (posture 28)). torso a) /
     real (length (buffered steadyBeforeLast (Some (posture 28)))) = 131 / 2 \<and>
   map cycleNumber (snd (run reset steadyRide)) = [1, 2, 3] \<and>
   sorted_wrt (<) (map cycleNumber (snd (run reset steadyRide)))"
proof -
  have f: "cycleCount steadyBeforeLast = 2" "last (peaks steadyBeforeLast) = 1700"
    by (simp_all add: steadyBeforeLast_def)
  have b: "buffered steadyBeforeLast (Some (posture 28)) = map posture [23 ..< 29]"
    by code_simp
  from cycle_summary_contents
      [of steadyBeforeLast 2800 "1 / 5" "Some (posture 28)" steadyRide]
    cycle_summary_contents [of reset 0 0 None steadyRide]
    steadyRide_last_emits steadyRide_run(2) f b
  show ?thesis by simp
qed


section \<open>Steadiness\<close>

text \<open>
  Claim C5. \<open>_checkSteady\<close> sets the flag to what the specification describes: false with
  fewer than 4 peaks in the history; otherwise true exactly when the average of the 3
  periods between the last 4 peaks is not 0 and the largest relative deviation of a period
  from the average is below 25%. Every accepted cycle ends with this recomputation, on the
  history that includes the new peak.
\<close>

theorem steadiness_recomputed:
  "isSteady (checkSteady s) = steadyOf (peaks s) \<and>
   (length (peaks s) < 4 \<longrightarrow> \<not> isSteady (checkSteady s)) \<and>
   (cycleAccepted s peakTime \<longrightarrow>
      isSteady (fst (checkCycleComplete s peakTime)) = steadyOf (peaks s)) \<and>
   (cycleCompleted s ts kneeY angs \<longrightarrow>
      isSteady (fst (addSample s ts kneeY angs)) =
        steadyOf (peaks s @ [candidateTime (admitted s ts kneeY angs)]))"
proof (intro conjI impI)
  show "isSteady (checkSteady s) = steadyOf (peaks s)" by (rule checkSteady_steadyOf)
next
  assume "length (peaks s) < 4"
  then show "\<not> isSteady (checkSteady s)" by (rule checkSteady_few)
next
  assume "cycleAccepted s peakTime"
  then show "isSteady (fst (checkCycleComplete s peakTime)) = steadyOf (peaks s)"
    by (simp add: checkCycleComplete_accepted checkSteady_steadyOf)
next
  assume "cycleCompleted s ts kneeY angs"
  then show "isSteady (fst (addSample s ts kneeY angs)) =
      steadyOf (peaks s @ [candidateTime (admitted s ts kneeY angs)])"
    by (rule addSample_cycle(4))
qed

text \<open>
  Claim C5, instances: the last frame of \<open>steadyRide\<close> completes a cycle with the peaks
  500, 1100, 1700, 2300 in the history, three periods of 600 ms, and the flag becomes true;
  with the peaks 0, 500, 1500, 2000 the periods 500, 1000, 500 deviate by up to a half from
  their average and the flag becomes false; with three peaks it is false.
\<close>

theorem steadiness_recomputed_witness:
  "cycleCompleted steadyBeforeLast 2800 (1 / 5) (Some (posture 28)) \<and>
   peaks steadyBeforeLast @ [candidateTime (admitted steadyBeforeLast 2800 (1 / 5)
      (Some (posture 28)))] = [500, 1100, 1700, 2300] \<and>
   steadyOf [500, 1100, 1700, 2300] \<and>
   isSteady (fst (addSample steadyBeforeLast 2800 (1 / 5) (Some (posture 28)))) \<and>
   cycleAccepted (reset\<lparr>peaks := [0, 500, 1500, 2000]\<rparr>) 2000 \<and>
   \<not> steadyOf [0, 500, 1500, 2000] \<and>
   \<not> isSteady (fst (checkCycleComplete (reset\<lparr>peaks := [0, 500, 1500, 2000]\<rparr>) 2000)) \<and>
   length (peaks (reset\<lparr>peaks := [500, 1100, 1700]\<rparr>)) < 4 \<and>
   \<not> isSteady (checkSteady (reset\<lparr>peaks := [500, 1100, 1700]\<rparr>))"
proof -
  have p: "peaks steadyBeforeLast = [500, 1100, 1700]" by (simp add: steadyBeforeLast_def)
  have s1: "steadyOf [500, 1100, 1700, 2300]"
    by (simp add: steadyOf_def relativeDeviation_def)
  have s2: "\<not> steadyOf [0, 500, 1500, 2000]"
    by (simp add: steadyOf_def relativeDeviation_def)
  have s3: "\<not> steadyOf [500, 1100, 1700]"
    by (simp add: steadyOf_def)
  have a: "cycleAccepted (reset\<lparr>peaks := [0, 500, 1500, 2000]\<rparr>) 2000"
    by (simp add: cycleAccepted_def)
  from steadiness_recomputed
      [of steadyBeforeLast 2300 2800 "1 / 5" "Some (posture 28)"]
    steadiness_recomputed [of "reset\<lparr>peaks := [0, 500, 1500, 2000]\<rparr>" 2000 0 0 None]
    steadiness_recomputed [of "reset\<lparr>peaks := [500, 1100, 1700]\<rparr>" 0 0 0 None]
    steadyRide_last_completed steadyRide_last_candidate p s1 s2 s3 a
  show ?thesis by simp
qed


section \<open>The angle buffer\<close>

text \<open>
  Claim C10. A call of \<open>addSample\<close> that completes no cycle leaves in the buffer what was
  there plus the angles of its frame, if any; a call that completes a cycle leaves the
  buffer empty. So over any sequence of calls that completes no cycle, whichever peaks it
  accepts and whichever periods it rejects, the buffer grows by exactly the non-null angle
  sets supplied, and a summary emitted by the next call is computed from the buffer at the
  start of the sequence followed by all of them and by that call's own angles.
\<close>

theorem buffer_accumulates:
  "(\<not> cycleCompleted s ts kneeY angs \<longrightarrow>
      currentCycleAngles (fst (addSample s ts kneeY angs)) = buffered s angs) \<and>
   (cycleCompleted s ts kneeY angs \<longrightarrow>
      currentCycleAngles (fst (addSample s ts kneeY angs)) = []) \<and>
   currentCycleAngles reset = [] \<and>
   (cycleCount (fst (run s es)) = cycleCount s \<longrightarrow>
      currentCycleAngles (fst (run s es)) = currentCycleAngles s @ suppliedAngles es \<and>
      (\<forall>sm \<in> set (snd (addSample (fst (run s es)) ts kneeY angs)).
         angles sm =
           cycleAngleSummary
             (currentCycleAngles s @ suppliedAngles (es @ [AddSample ts kneeY angs]))))"
proof (intro conjI impI ballI)
  assume "\<not> cycleCompleted s ts kneeY angs"
  then show "currentCycleAngles (fst (addSample s ts kneeY angs)) = buffered s angs"
    by (rule addSample_no_cycle(5))
next
  assume "cycleCompleted s ts kneeY angs"
  then show "currentCycleAngles (fst (addSample s ts kneeY angs)) = []"
    by (rule addSample_cycle(5))
next
  show "currentCycleAngles reset = []" by (simp add: reset_def)
next
  assume "cycleCount (fst (run s es)) = cycleCount s"
  then show "currentCycleAngles (fst (run s es)) = currentCycleAngles s @ suppliedAngles es"
    using run_no_cycle [of s es] by simp
next
  fix sm
  assume same: "cycleCount (fst (run s es)) = cycleCount s"
    and m: "sm \<in> set (snd (addSample (fst (run s es)) ts kneeY angs))"
  from same have buf: "currentCycleAngles (fst (run s es)) =
      currentCycleAngles s @ suppliedAngles es"
    using run_no_cycle [of s es] by simp
  from addSample_emitted(6) [OF m]
  have "angles sm = cycleAngleSummary (buffered (fst (run s es)) angs)" .
  with buf show "angles sm =
      cycleAngleSummary
        (currentCycleAngles s @ suppliedAngles (es @ [AddSample ts kneeY angs]))"
    by (simp add: buffered_def suppliedAngles_snoc)
qed

text \<open>
  Claim C10, an instance: in \<open>hesitantRide\<close> the first 30 frames complete no cycle, although
  the peak at 650 ms was accepted and its period of 400 ms rejected; the last frame
  completes the cycle that ends at 1250 ms, and its summary is computed from the angle
  sets of all 31 frames: those before the first peak at 250 ms, those of the rejected
  period, and those after the defining peak up to the frame that detected it.
\<close>

theorem buffer_accumulates_witness:
  "cycleCount (fst (run reset (take 31 hesitantRide))) = cycleCount reset \<and>
   peaks (fst (run reset (take 31 hesitantRide))) = [250, 650] \<and>
   snd (addSample (fst (run reset (take 31 hesitantRide))) 1500 (- (1 / 10))
          (Some (posture 30))) =
     [\<lparr>cycleNumber = 1, timestamp = 1250, rpm = 100,
        angles = \<lparr>knee_max = 170, hip_min = 40, torso_avg = 55, elbow_avg = 160\<rparr>\<rparr>] \<and>
   currentCycleAngles reset @
     suppliedAngles (take 31 hesitantRide @ [AddSample 1500 (- (1 / 10)) (Some (posture 30))]) =
     map posture [0 ..< 31] \<and>
   cycleAngleSummary (map posture [0 ..< 31]) =
     \<lparr>knee_max = 170, hip_min = 40, torso_avg = 55, elbow_avg = 160\<rparr> \<and>
   currentCycleAngles (fst (run reset (take 31 hesitantRide))) = map posture [0 ..< 30]"
proof -
  have f: "cycleCount hesitantBeforeLast = 0" "peaks hesitantBeforeLast = [250, 650]"
    by (simp_all add: hesitantBeforeLast_def)
  have r: "cycleCount reset = 0" "currentCycleAngles reset = []"
    by (simp_all add: reset_def)
  have sup: "suppliedAngles (take 31 hesitantRide) = map posture [0 ..< 30]"
    by code_simp
  from buffer_accumulates
      [of reset 1500 "- (1 / 10)" "Some (posture 30)" "take 31 hesitantRide"]
    hesitantRide_prefix hesitantRide_last_emits hesitantRide_supplied f r sup
  show ?thesis by simp
qed


section \<open>The stopped predicate\<close>

lemma run_reset_no_cycle_time:
  "cycleCount (fst (run reset es)) = 0 \<Longrightarrow> lastCycleTime (fst (run reset es)) = 0"
  using run_no_cycle_time [of reset es] by (simp add: reset_def)

lemma run_reset_cycle_time:
  assumes "list_all nonnegTime es" and "0 < cycleCount (fst (run reset es))"
  shows "500 \<le> lastCycleTime (fst (run reset es))"
proof -
  have "timesNonneg (fst (run reset es))"
    using reset_timesNonneg assms(1) by (rule run_timesNonneg)
  with assms(2) show ?thesis by (simp add: timesNonneg_def)
qed

text \<open>
  Claim C4. The frame source stamps its frames with \<open>performance.now()\<close>, which is never
  negative. After a reset, \<open>hasStopped\<close> is false as long as no cycle has been counted. On
  a session without a negative sample timestamp, once a cycle has been counted
  \<open>hasStopped(t)\<close> holds exactly when \<open>t\<close> is more than 2000 ms past the last cycle time,
  which is then at least 500. The last cycle time is the time of the peak that completed
  the latest accepted cycle: a call that completes a cycle sets it to that peak's time, and
  any other call leaves it alone. With the last cycle at 10000 ms, \<open>hasStopped(12001)\<close>
  holds and \<open>hasStopped(11999)\<close> does not.
\<close>

theorem hasStopped_after_cycle:
  "(cycleCount (fst (run reset es)) = 0 \<longrightarrow> \<not> hasStopped (fst (run reset es)) t) \<and>
   (list_all nonnegTime es \<longrightarrow> 0 < cycleCount (fst (run reset es)) \<longrightarrow>
      500 \<le> lastCycleTime (fst (run reset es)) \<and>
      hasStopped (fst (run reset es)) t = (2000 < t - lastCycleTime (fst (run reset es)))) \<and>
   (lastCycleTime s \<noteq> 0 \<longrightarrow> hasStopped s t = (2000 < t - lastCycleTime s)) \<and>
   (cycleCompleted s ts kneeY angs \<longrightarrow>
      lastCycleTime (fst (addSample s ts kneeY angs)) =
        candidateTime (admitted s ts kneeY angs)) \<and>
   (\<not> cycleCompleted s ts kneeY angs \<longrightarrow>
      lastCycleTime (fst (addSample s ts kneeY angs)) = lastCycleTime s) \<and>
   (lastCycleTime s = 10000 \<longrightarrow> hasStopped s 12001 \<and> \<not> hasStopped s 11999)"
proof (intro conjI impI)
  assume "cycleCount (fst (run reset es)) = 0"
  then have "lastCycleTime (fst (run reset es)) = 0" by (rule run_reset_no_cycle_time)
  then show "\<not> hasStopped (fst (run reset es)) t" by (simp add: hasStopped_def)
next
  assume a: "list_all nonnegTime es" "0 < cycleCount (fst (run reset es))"
  then show far: "500 \<le> lastCycleTime (fst (run reset es))" by (rule run_reset_cycle_time)
  then show "hasStopped (fst (run reset es)) t =
      (2000 < t - lastCycleTime (fst (run reset es)))"
    by (simp add: hasStopped_def STOP_TIMEOUT_MS_def)
next
  assume "lastCycleTime s \<noteq> 0"
  then show "hasStopped s t = (2000 < t - lastCycleTime s)"
    by (simp add: hasStopped_def STOP_TIMEOUT_MS_def)
next
  assume "cycleCompleted s ts kneeY angs"
  then show "lastCycleTime (fst (addSample s ts kneeY angs)) =
      candidateTime (admitted s ts kneeY angs)"
    by (rule addSample_cycle(3))
next
  assume "\<not> cycleCompleted s ts kneeY angs"
  then show "lastCycleTime (fst (addSample s ts kneeY angs)) = lastCycleTime s"
    by (rule addSample_no_cycle(3))
next
  assume "lastCycleTime s = 10000"
  then show "hasStopped s 12001" by (simp add: hasStopped_def STOP_TIMEOUT_MS_def)
next
  assume "lastCycleTime s = 10000"
  then show "\<not> hasStopped s 11999" by (simp add: hasStopped_def STOP_TIMEOUT_MS_def)
qed

text \<open>
  Claim C4, instances: after the first 30 frames of \<open>hesitantRide\<close> no cycle has been
  counted and nothing has stopped, however late it is; \<open>steadyRide\<close>, on a clock from 0,
  completes its third cycle with the peak at 2300 ms in its last frame, and \<open>hasStopped\<close>
  is false at 4300 ms and true at 4301 ms.
\<close>

theorem hasStopped_after_cycle_witness:
  "cycleCount (fst (run reset (take 31 hesitantRide))) = 0 \<and>
   \<not> hasStopped (fst (run reset (take 31 hesitantRide))) 99999 \<and>
   list_all nonnegTime steadyRide \<and>
   cycleCount (fst (run reset steadyRide)) = 3 \<and>
   cycleCompleted steadyBeforeLast 2800 (1 / 5) (Some (posture 28)) \<and>
   candidateTime (admitted steadyBeforeLast 2800 (1 / 5) (Some (posture 28))) = 2300 \<and>
   lastCycleTime (fst (run reset steadyRide)) = 2300 \<and>
   \<not> hasStopped (fst (run reset steadyRide)) 4300 \<and>
   hasStopped (fst (run reset steadyRide)) 4301 \<and>
   lastCycleTime (reset\<lparr>lastCycleTime := 10000\<rparr>) = 10000 \<and>
   hasStopped (reset\<lparr>lastCycleTime := 10000\<rparr>) 12001 \<and>
   \<not> hasStopped (reset\<lparr>lastCycleTime := 10000\<rparr>) 11999"
proof -
  have c: "cycleCount (fst (run reset steadyRide)) = 3"
    and l: "lastCycleTime (fst (run reset steadyRide)) = 2300"
    by (simp_all add: steadyRide_run steadyRide_last_count steadyRide_last_time)
  have z: "cycleCount (fst (run reset (take 31 hesitantRide))) = 0"
    by (simp add: hesitantRide_prefix hesitantBeforeLast_def)
  from hasStopped_after_cycle
      [of "take 31 hesitantRide" 99999 "reset\<lparr>lastCycleTime := 10000\<rparr>" 0 0 None]
    hasStopped_after_cycle
      [of steadyRide 4300 steadyBeforeLast 2800 "1 / 5" "Some (posture 28)"]
    hasStopped_after_cycle
      [of steadyRide 4301 "fst (run reset steadyRide)" 0 0 None]
    steadyRide_nonneg steadyRide_last_completed steadyRide_last_candidate c l z
  show ?thesis by simp
qed

text \<open>
  On a clock that does go below zero the guard \<open>lastCycleTime === 0\<close> of \<open>hasStopped\<close> cannot
  tell a cycle that ends at the timestamp 0 from no cycle: in \<open>earlyRide\<close>, whose clock
  starts at -1100 ms, the cycle that ends with the peak at 0 ms is counted and emitted, and
  5000 ms later \<open>hasStopped\<close> is still false. The hypothesis on the timestamps is needed.
\<close>

lemma earlyRide_negative: "\<not> list_all nonnegTime earlyRide"
  by (simp add: earlyRide_def)

lemma sentinel_cycle_at_zero:
  "\<not> list_all nonnegTime earlyRide \<and>
   cycleCount (fst (run reset earlyRide)) = 1 \<and>
   snd (run reset earlyRide) =
     [\<lparr>cycleNumber = 1, timestamp = 0, rpm = 100,
        angles = \<lparr>knee_max = 156, hip_min = 54, torso_avg = 48, elbow_avg = 160\<rparr>\<rparr>] \<and>
   lastCycleTime (fst (run reset earlyRide)) = 0 \<and>
   \<not> hasStopped (fst (run reset earlyRide)) 5000"
  by (simp add: earlyRide_negative earlyRide_run earlyRide_last_count earlyRide_last_time
      hasStopped_def)

section \<open>Classification against the target ranges\<close>

lemma analyzeChannel_fields:
  "key (analyzeChannel cs (k, thr)) = k"
  "targetMin (analyzeChannel cs (k, thr)) = tmin thr"
  "targetMax (analyzeChannel cs (k, thr)) = tmax thr"
  by (simp_all add: analyzeChannel_def Let_def)

lemma analyzeChannel_verdict:
  "status (analyzeChannel cs (k, thr)) =
     (if channelMean cs k < tmin thr
      then (if 10 < tmin thr - channelMean cs k then ''red'' else ''yellow'')
      else if tmax thr < channelMean cs k
      then (if 10 < channelMean cs k - tmax thr then ''red'' else ''yellow'')
      else ''green'')"
  "suggestion (analyzeChannel cs (k, thr)) =
     (if channelMean cs k < tmin thr then lowSuggestion thr
      else if tmax thr < channelMean cs k then highSuggestion thr
      else goodSuggestion thr)"
  by (simp_all add: analyzeChannel_def channelMean_def Let_def)

lemma thresholds_ordered: "(k, thr) \<in> set THRESHOLDS \<Longrightarrow> tmin thr < tmax thr"
  by (auto simp add: THRESHOLDS_def)

lemma analyzeSession_results:
  assumes "r \<in> set (analyzeSession cs)"
  shows "cs \<noteq> [] \<and> (\<exists>thr. (key r, thr) \<in> set THRESHOLDS \<and> r = analyzeChannel cs (key r, thr))"
proof -
  from assms have ne: "cs \<noteq> []" by (auto simp add: analyzeSession_def)
  with assms obtain k thr where e: "(k, thr) \<in> set THRESHOLDS" and r: "r = analyzeChannel cs (k, thr)"
    by (auto simp add: analyzeSession_def)
  from r have "key r = k" by (simp add: analyzeChannel_fields)
  with ne e r show ?thesis by auto
qed

text \<open>
  Claim C6. Every result of \<open>analyzeSession\<close> belongs to one entry of \<open>THRESHOLDS\<close>, whose
  range it reports, and is classified from the mean \<open>m\<close> of its channel over the session:
  green with the good text exactly when \<open>m\<close> lies in the range; below the range, red when
  the deficit is more than 10 degrees and yellow otherwise, with the low text; above the
  range, red when the excess is more than 10 degrees and yellow otherwise, with the high
  text. So 12 degrees below is red and 8 degrees below is yellow.
\<close>

theorem classification_by_mean:
  assumes "r \<in> set (analyzeSession cycleData)"
    and "m = channelMean cycleData (key r)"
  shows "\<exists>thr. (key r, thr) \<in> set THRESHOLDS \<and>
           targetMin r = tmin thr \<and> targetMax r = tmax thr \<and>
           (status r = ''green'' \<longleftrightarrow> targetMin r \<le> m \<and> m \<le> targetMax r) \<and>
           (targetMin r \<le> m \<and> m \<le> targetMax r \<longrightarrow> suggestion r = goodSuggestion thr) \<and>
           (m < targetMin r \<longrightarrow>
              status r = (if 10 < targetMin r - m then ''red'' else ''yellow'') \<and>
              suggestion r = lowSuggestion thr) \<and>
           (targetMax r < m \<longrightarrow>
              status r = (if 10 < m - targetMax r then ''red'' else ''yellow'') \<and>
              suggestion r = highSuggestion thr) \<and>
           (m = targetMin r - 12 \<longrightarrow> status r = ''red'') \<and>
           (m = targetMin r - 8 \<longrightarrow> status r = ''yellow'')"
proof -
  from analyzeSession_results [OF assms(1)]
  obtain thr where e: "(key r, thr) \<in> set THRESHOLDS"
    and r: "r = analyzeChannel cycleData (key r, thr)" by blast
  from e have ord: "tmin thr < tmax thr" by (rule thresholds_ordered)
  have tm: "targetMin r = tmin thr" and tx: "targetMax r = tmax thr"
    using r analyzeChannel_fields [of cycleData "key r" thr] by simp_all
  have st: "status r =
     (if m < tmin thr
      then (if 10 < tmin thr - m then ''red'' else ''yellow'')
      else if tmax thr < m
      then (if 10 < m - tmax thr then ''red'' else ''yellow'')
      else ''green'')"
    using r analyzeChannel_verdict(1) [of cycleData "key r" thr] assms(2) by simp
  have sg: "suggestion r =
     (if m < tmin thr then lowSuggestion thr
      else if tmax thr < m then highSuggestion thr
      else goodSuggestion thr)"
    using r analyzeChannel_verdict(2) [of cycleData "key r" thr] assms(2) by simp
  have "(status r = ''green'' \<longleftrightarrow> targetMin r \<le> m \<and> m \<le> targetMax r) \<and>
        (targetMin r \<le> m \<and> m \<le> targetMax r \<longrightarrow> suggestion r = goodSuggestion thr) \<and>
        (m < targetMin r \<longrightarrow>
           status r = (if 10 < targetMin r - m then ''red'' else ''yellow'') \<and>
           suggestion r = lowSuggestion thr) \<and>
        (targetMax r < m \<longrightarrow>
           status r = (if 10 < m - targetMax r then ''red'' else ''yellow'') \<and>
           suggestion r = highSuggestion thr) \<and>
        (m = targetMin r - 12 \<longrightarrow> status r = ''red'') \<and>
        (m = targetMin r - 8 \<longrightarrow> status r = ''yellow'')"
    unfolding tm tx st sg using ord by auto
  with e tm tx show ?thesis by blast
qed


lemma kneeLowSession_means:
  "channelMean kneeLowSession KneeCh = 123"
  "channelMean kneeLowSession HipCh = 71"
  "channelMean kneeLowSession TorsoCh = 60"
  "channelMean kneeLowSession ElbowCh = 185"
  by (simp_all add: channelMean_def kneeLowSession_def)

lemma kneeNearSession_means:
  "channelMean kneeNearSession KneeCh = 127"
  by (simp add: channelMean_def kneeNearSession_def)

lemma analyzeSession_hd:
  "cs \<noteq> [] \<Longrightarrow> hd (analyzeSession cs) = analyzeChannel cs (hd THRESHOLDS)"
  by (simp add: analyzeSession_def THRESHOLDS_def)

text \<open>
  Claim C6, instances: the session with a mean knee angle 12 degrees below the range is
  classified red, green, yellow and red on its four channels, with the low text for the
  knee; the session 8 degrees below is yellow on the knee.
\<close>

theorem classification_by_mean_witness:
  "hd (analyzeSession kneeLowSession) \<in> set (analyzeSession kneeLowSession) \<and>
   key (hd (analyzeSession kneeLowSession)) = KneeCh \<and>
   channelMean kneeLowSession KneeCh = 135 - 12 \<and>
   targetMin (hd (analyzeSession kneeLowSession)) = 135 \<and>
   status (hd (analyzeSession kneeLowSession)) = ''red'' \<and>
   suggestion (hd (analyzeSession kneeLowSession)) = knee_lowSuggestion \<and>
   map (\<lambda>r. (key r, status r)) (analyzeSession kneeLowSession) =
     [(KneeCh, ''red''), (HipCh, ''green''), (TorsoCh, ''yellow''), (ElbowCh, ''red'')] \<and>
   hd (analyzeSession kneeNearSession) \<in> set (analyzeSession kneeNearSession) \<and>
   channelMean kneeNearSession KneeCh = 135 - 8 \<and>
   status (hd (analyzeSession kneeNearSession)) = ''yellow''"
proof -
  have ne: "kneeLowSession \<noteq> []" "kneeNearSession \<noteq> []"
    by (simp_all add: kneeLowSession_def kneeNearSession_def)
  have ne2: "analyzeSession kneeLowSession \<noteq> []" "analyzeSession kneeNearSession \<noteq> []"
    using ne by (simp_all add: analyzeSession_def THRESHOLDS_def)
  have in1: "hd (analyzeSession kneeLowSession) \<in> set (analyzeSession kneeLowSession)"
    using ne2(1) by (rule hd_in_set)
  have in2: "hd (analyzeSession kneeNearSession) \<in> set (analyzeSession kneeNearSession)"
    using ne2(2) by (rule hd_in_set)
  have k1: "key (hd (analyzeSession kneeLowSession)) = KneeCh"
    and t1: "targetMin (hd (analyzeSession kneeLowSession)) = 135"
    and k2: "key (hd (analyzeSession kneeNearSession)) = KneeCh"
    and t2: "targetMin (hd (analyzeSession kneeNearSession)) = 135"
    using ne by (simp_all add: analyzeSession_hd THRESHOLDS_def analyzeChannel_fields)
  have sg: "suggestion (hd (analyzeSession kneeLowSession)) = knee_lowSuggestion"
    using ne(1)
    by (simp add: analyzeSession_hd THRESHOLDS_def analyzeChannel_verdict kneeLowSession_means)
  have all: "map (\<lambda>r. (key r, status r)) (analyzeSession kneeLowSession) =
     [(KneeCh, ''red''), (HipCh, ''green''), (TorsoCh, ''yellow''), (ElbowCh, ''red'')]"
    using ne(1)
    by (simp add: analyzeSession_def THRESHOLDS_def analyzeChannel_fields
        analyzeChannel_verdict kneeLowSession_means)
  have m1: "123 = channelMean kneeLowSession (key (hd (analyzeSession kneeLowSession)))"
    by (simp add: k1 kneeLowSession_means)
  have m2: "127 = channelMean kneeNearSession (key (hd (analyzeSession kneeNearSession)))"
    by (simp add: k2 kneeNearSession_means)
  from classification_by_mean [OF in1 m1] t1
  have r1: "status (hd (analyzeSession kneeLowSession)) = ''red''" by auto
  from classification_by_mean [OF in2 m2] t2
  have r2: "status (hd (analyzeSession kneeNearSession)) = ''yellow''" by auto
  from in1 in2 k1 t1 sg all r1 r2 show ?thesis
    by (simp add: kneeLowSession_means kneeNearSession_means)
qed


section \<open>Sessions without cycles\<close>

lemma trimCycles_empty_iff: "trimCycles cs = [] \<longleftrightarrow> cs = []"
proof
  assume e: "trimCycles cs = []"
  show "cs = []"
  proof (rule ccontr)
    assume ne: "cs \<noteq> []"
    show False
    proof (cases "length cs \<le> 1 \<or> sessionSpan cs \<le> 5000")
      case True
      then have "trimCycles cs = cs" using trimCycles_fixed_iff by blast
      with e ne show False by simp
    next
      case False
      then have t: "trimCycles cs = filter (\<lambda>c. timestamp c \<le> timestamp (last cs) - 5000) cs"
        by (rule trimCycles_long)
      from False have "timestamp (hd cs) \<le> timestamp (last cs) - 5000"
        by (simp add: sessionSpan_def)
      with ne have "filter (\<lambda>c. timestamp c \<le> timestamp (last cs) - 5000) cs \<noteq> []"
        by (rule hd_filter_first(2))
      with t e show False by simp
    qed
  qed
next
  assume "cs = []"
  then show "trimCycles cs = []" by (simp add: trimCycles_def)
qed

lemma analyzeSession_keys:
  "cs \<noteq> [] \<Longrightarrow> map key (analyzeSession cs) = [KneeCh, HipCh, TorsoCh, ElbowCh]"
  by (simp add: analyzeSession_def THRESHOLDS_def analyzeChannel_fields)

text \<open>
  Claim C7 as stated fails: for a session with zero cycles \<open>analyzeSession\<close> returns the
  empty array of results, a value of the type of every other analysis, and signals nothing
  else.
\<close>

theorem analyzeSession_no_cycles: "analyzeSession [] = []"
  by (simp add: analyzeSession_def)

text \<open>
  Claim C7, as amended. \<open>analyzeSession\<close> returns the empty array exactly for a session
  with zero cycles; any other session yields the four results for knee, hip, torso and
  elbow. The distinct report for zero cycles is made by the caller, \<open>finalizeAnalysis\<close>,
  which stops before the analyzer is called; trimming never empties a session that has a
  cycle, so that every other session is analyzed and gives four results.
\<close>

theorem analyzeSession_empty_iff:
  "(analyzeSession cycleData = [] \<longleftrightarrow> cycleData = []) \<and>
   (cycleData \<noteq> [] \<longrightarrow>
      map key (analyzeSession cycleData) = [KneeCh, HipCh, TorsoCh, ElbowCh]) \<and>
   finalizeAnalysis [] = (NoCyclesCaptured, None) \<and>
   (trimCycles cycleData = [] \<longleftrightarrow> cycleData = []) \<and>
   (cycleData \<noteq> [] \<longrightarrow>
      finalizeAnalysis cycleData =
        (AnalysisComplete, Some (analyzeSession (trimCycles cycleData))) \<and>
      length (analyzeSession (trimCycles cycleData)) = 4)"
proof (intro conjI impI)
  show "analyzeSession cycleData = [] \<longleftrightarrow> cycleData = []"
    by (auto simp add: analyzeSession_def THRESHOLDS_def)
next
  assume "cycleData \<noteq> []"
  then show "map key (analyzeSession cycleData) = [KneeCh, HipCh, TorsoCh, ElbowCh]"
    by (rule analyzeSession_keys)
next
  show "finalizeAnalysis [] = (NoCyclesCaptured, None)" by (simp add: finalizeAnalysis_def)
next
  show "trimCycles cycleData = [] \<longleftrightarrow> cycleData = []" by (rule trimCycles_empty_iff)
next
  assume ne: "cycleData \<noteq> []"
  then have t: "trimCycles cycleData \<noteq> []" by (simp add: trimCycles_empty_iff)
  with ne show "finalizeAnalysis cycleData =
      (AnalysisComplete, Some (analyzeSession (trimCycles cycleData)))"
    by (simp add: finalizeAnalysis_def Let_def)
  from analyzeSession_keys [OF t]
  have "length (map key (analyzeSession (trimCycles cycleData))) = 4" by simp
  then show "length (analyzeSession (trimCycles cycleData)) = 4" by simp
qed

text \<open>
  Claim C7, an instance of the amended statement: a session of two cycles is analyzed on
  its four channels, by the analyzer and through the caller.
\<close>

theorem analyzeSession_empty_iff_witness:
  "kneeLowSession \<noteq> [] \<and>
   analyzeSession kneeLowSession \<noteq> [] \<and>
   map key (analyzeSession kneeLowSession) = [KneeCh, HipCh, TorsoCh, ElbowCh] \<and>
   trimCycles kneeLowSession = kneeLowSession \<and>
   finalizeAnalysis kneeLowSession = (AnalysisComplete, Some (analyzeSession kneeLowSession))"
proof -
  have ne: "kneeLowSession \<noteq> []" by (simp add: kneeLowSession_def)
  have t: "trimCycles kneeLowSession = kneeLowSession"
    by (simp add: trimCycles_def kneeLowSession_def TRIM_END_MS_def)
  from analyzeSession_empty_iff [of kneeLowSession] ne t show ?thesis by simp
qed


section \<open>Angle sets are all or nothing\<close>

text \<open>
  Degenerate triples: with \<open>a\<close> on the vertex and \<open>c\<close> below and to the left of it the
  source reaches \<open>atan2(+0, -0)\<close> and the angle is 180; with \<open>c\<close> above and to the right it
  reaches \<open>atan2(+0, +0)\<close> and the angle is 0.
\<close>

lemma angleDeg_coincident:
  "angleDeg \<lparr>px = 1, py = 1\<rparr> \<lparr>px = 1, py = 1\<rparr> \<lparr>px = 0, py = 0\<rparr> = 180"
  "angleDeg \<lparr>px = 1, py = 1\<rparr> \<lparr>px = 1, py = 1\<rparr> \<lparr>px = 2, py = 2\<rparr> = 0"
  "angleDeg \<lparr>px = 1, py = 1\<rparr> \<lparr>px = 1, py = 1\<rparr> \<lparr>px = 0, py = 2\<rparr> = 0"
  by (simp_all add: angleDeg_def atan2_def negativeZeroProduct_def)

lemma getLandmarks_loop_spec:
  "distinct (map fst es) \<Longrightarrow>
   getLandmarks_loop es allLandmarks ar (6 / 10) res =
     (if list_all (\<lambda>(j, idx). usable allLandmarks idx) es
      then Some (\<lambda>j. case map_of es j of
                        None \<Rightarrow> res j
                      | Some idx \<Rightarrow> Some (corrected allLandmarks ar idx))
      else None)"
proof (induction es arbitrary: res)
  case Nil
  show ?case by simp
next
  case (Cons e es)
  obtain name idx where e: "e = (name, idx)" by (cases e)
  from Cons.prems e have d: "distinct (map fst es)" and fresh: "map_of es name = None"
    by (auto simp add: map_of_eq_None_iff)
  show ?case
  proof (cases "usable allLandmarks idx")
    case False
    then show ?thesis using e
      by (auto simp add: usable_def split: option.splits)
  next
    case True
    then obtain lm where lm: "landmarkAt allLandmarks idx = Some lm"
      and vis: "\<not> (case visibility lm of None \<Rightarrow> False | Some v \<Rightarrow> v < 6 / 10)"
      by (auto simp add: usable_def split: option.splits)
    have c: "corrected allLandmarks ar idx = \<lparr>px = lm_x lm * ar, py = lm_y lm\<rparr>"
      using lm by (simp add: corrected_def)
    have step: "getLandmarks_loop (e # es) allLandmarks ar (6 / 10) res =
        getLandmarks_loop es allLandmarks ar (6 / 10)
          (res(name \<mapsto> corrected allLandmarks ar idx))"
      using e lm vis c by (cases "visibility lm") simp_all
    have maps: "(\<lambda>j. case map_of es j of
                        None \<Rightarrow> (res(name \<mapsto> corrected allLandmarks ar idx)) j
                      | Some i \<Rightarrow> Some (corrected allLandmarks ar i)) =
                (\<lambda>j. case map_of (e # es) j of
                        None \<Rightarrow> res j
                      | Some i \<Rightarrow> Some (corrected allLandmarks ar i))"
      using e fresh by (auto simp add: fun_eq_iff split: option.splits)
    show ?thesis
      unfolding step Cons.IH [OF d] using True e maps by simp
  qed
qed

lemma SIDE_LANDMARKS_distinct: "distinct (map fst (SIDE_LANDMARKS sd))"
  by (cases sd) simp_all

lemma SIDE_LANDMARKS_total: "map_of (SIDE_LANDMARKS sd) j = Some (jointIndex sd j)"
  by (cases sd; cases j) (simp_all add: jointIndex_def)

lemma getLandmarks_spec:
  "getLandmarks allLandmarks sd ar (6 / 10) =
     (if list_all (\<lambda>(j, idx). usable allLandmarks idx) (SIDE_LANDMARKS sd)
      then Some (\<lambda>j. Some (jointPoint allLandmarks sd ar j))
      else None)"
  unfolding getLandmarks_def getLandmarks_loop_spec [OF SIDE_LANDMARKS_distinct]
  by (simp add: SIDE_LANDMARKS_total jointPoint_def)

text \<open>
  Claim C8. \<open>computeAngles\<close> returns \<open>null\<close> when one of the six landmarks of the side is
  missing from the array or has a visibility below 0.6; otherwise it returns all four
  angles, each computed from the aspect-corrected points of its three (for the torso, two)
  landmarks. A present landmark without a visibility value counts as usable. The
  corrected point of a landmark has its \<open>x\<close> multiplied by the aspect ratio and its \<open>y\<close>
  unchanged.
\<close>

theorem computeAngles_all_or_nothing:
  "computeAngles allLandmarks sd aspectRatio =
     (if list_all (\<lambda>(j, idx). usable allLandmarks idx) (SIDE_LANDMARKS sd)
      then Some
        \<lparr>knee = angleDeg (jointPoint allLandmarks sd aspectRatio LmHip)
                  (jointPoint allLandmarks sd aspectRatio LmKnee)
                  (jointPoint allLandmarks sd aspectRatio LmAnkle),
         hip = angleDeg (jointPoint allLandmarks sd aspectRatio LmShoulder)
                 (jointPoint allLandmarks sd aspectRatio LmHip)
                 (jointPoint allLandmarks sd aspectRatio LmKnee),
         torso = angleFromHorizontal (jointPoint allLandmarks sd aspectRatio LmHip)
                   (jointPoint allLandmarks sd aspectRatio LmShoulder),
         elbow = angleDeg (jointPoint allLandmarks sd aspectRatio LmShoulder)
                   (jointPoint allLandmarks sd aspectRatio LmElbow)
                   (jointPoint allLandmarks sd aspectRatio LmWrist)\<rparr>
      else None) \<and>
   (\<forall>lm. landmarkAt allLandmarks (jointIndex sd j) = Some lm \<longrightarrow>
      jointPoint allLandmarks sd aspectRatio j =
        \<lparr>px = lm_x lm * aspectRatio, py = lm_y lm\<rparr>) \<and>
   (usable allLandmarks idx \<longleftrightarrow>
      (\<exists>lm. landmarkAt allLandmarks idx = Some lm \<and>
         (\<forall>v. visibility lm = Some v \<longrightarrow> 6 / 10 \<le> v)))"
proof (intro conjI)
  show "computeAngles allLandmarks sd aspectRatio =
     (if list_all (\<lambda>(j, idx). usable allLandmarks idx) (SIDE_LANDMARKS sd)
      then Some
        \<lparr>knee = angleDeg (jointPoint allLandmarks sd aspectRatio LmHip)
                  (jointPoint allLandmarks sd aspectRatio LmKnee)
                  (jointPoint allLandmarks sd aspectRatio LmAnkle),
         hip = angleDeg (jointPoint allLandmarks sd aspectRatio LmShoulder)
                 (jointPoint allLandmarks sd aspectRatio LmHip)
                 (jointPoint allLandmarks sd aspectRatio LmKnee),
         torso = angleFromHorizontal (jointPoint allLandmarks sd aspectRatio LmHip)
                   (jointPoint allLandmarks sd aspectRatio LmShoulder),
         elbow = angleDeg (jointPoint allLandmarks sd aspectRatio LmShoulder)
                   (jointPoint allLandmarks sd aspectRatio LmElbow)
                   (jointPoint allLandmarks sd aspectRatio LmWrist)\<rparr>
      else None)"
    unfolding computeAngles_def getLandmarks_spec by simp
next
  show "\<forall>lm. landmarkAt allLandmarks (jointIndex sd j) = Some lm \<longrightarrow>
      jointPoint allLandmarks sd aspectRatio j =
        \<lparr>px = lm_x lm * aspectRatio, py = lm_y lm\<rparr>"
    by (simp add: jointPoint_def corrected_def)
next
  show "usable allLandmarks idx \<longleftrightarrow>
      (\<exists>lm. landmarkAt allLandmarks idx = Some lm \<and>
         (\<forall>v. visibility lm = Some v \<longrightarrow> 6 / 10 \<le> v))"
    by (auto simp add: usable_def not_less split: option.splits)
qed

lemma fullFrame_at:
  "i < 33 \<Longrightarrow> landmarkAt fullFrame i =
     Some \<lparr>lm_x = real i / 100, lm_y = real (i mod 7) / 10,
           visibility = (if even i then Some (9 / 10) else None)\<rparr>"
  by (simp add: landmarkAt_def fullFrame_def)

text \<open>
  Claim C8, instances: on the full frame the left side gives all four angles, from the
  landmarks 11, 13, 15, 23, 25 and 27 with \<open>x\<close> scaled by 16/9; with the left knee at
  visibility 0.5 the left side gives \<open>null\<close> while the right side still gives a result;
  with only 20 landmarks in the array both the hip and the result are missing.
\<close>

theorem computeAngles_all_or_nothing_witness:
  "computeAngles fullFrame Left (16 / 9) =
     Some \<lparr>knee = angleDeg \<lparr>px = 23 / 100 * (16 / 9), py = 2 / 10\<rparr>
                     \<lparr>px = 25 / 100 * (16 / 9), py = 4 / 10\<rparr>
                     \<lparr>px = 27 / 100 * (16 / 9), py = 6 / 10\<rparr>,
           hip = angleDeg \<lparr>px = 11 / 100 * (16 / 9), py = 4 / 10\<rparr>
                    \<lparr>px = 23 / 100 * (16 / 9), py = 2 / 10\<rparr>
                    \<lparr>px = 25 / 100 * (16 / 9), py = 4 / 10\<rparr>,
           torso = angleFromHorizontal \<lparr>px = 23 / 100 * (16 / 9), py = 2 / 10\<rparr>
                     \<lparr>px = 11 / 100 * (16 / 9), py = 4 / 10\<rparr>,
           elbow = angleDeg \<lparr>px = 11 / 100 * (16 / 9), py = 4 / 10\<rparr>
                     \<lparr>px = 13 / 100 * (16 / 9), py = 6 / 10\<rparr>
                     \<lparr>px = 15 / 100 * (16 / 9), py = 1 / 10\<rparr>\<rparr> \<and>
   \<not> usable dimFrame 25 \<and>
   computeAngles dimFrame Left (16 / 9) = None \<and>
   computeAngles dimFrame Right (16 / 9) \<noteq> None \<and>
   \<not> usable shortFrame 23 \<and>
   computeAngles shortFrame Left (16 / 9) = None"
proof -
  have dim: "landmarkAt dimFrame 25 = Some \<lparr>lm_x = 1 / 4, lm_y = 2 / 5, visibility = Some (1 / 2)\<rparr>"
    by (simp add: landmarkAt_def dimFrame_def fullFrame_def)
  have dimo: "i < 33 \<Longrightarrow> i \<noteq> 25 \<Longrightarrow> landmarkAt dimFrame i = landmarkAt fullFrame i" for i
    by (simp add: landmarkAt_def dimFrame_def fullFrame_def)
  have short: "landmarkAt shortFrame 23 = None"
    by (simp add: landmarkAt_def shortFrame_def fullFrame_def)
  have u1: "list_all (\<lambda>(j, idx). usable fullFrame idx) (SIDE_LANDMARKS Left)"
    by (simp add: usable_def fullFrame_at)
  have u2: "\<not> usable dimFrame 25" by (simp add: usable_def dim)
  have u3: "list_all (\<lambda>(j, idx). usable dimFrame idx) (SIDE_LANDMARKS Right)"
    by (simp add: usable_def dimo fullFrame_at)
  have u4: "\<not> usable shortFrame 23" by (simp add: usable_def short)
  have pts: "jointPoint fullFrame Left (16 / 9) LmShoulder = \<lparr>px = 11 / 100 * (16 / 9), py = 4 / 10\<rparr>"
    "jointPoint fullFrame Left (16 / 9) LmElbow = \<lparr>px = 13 / 100 * (16 / 9), py = 6 / 10\<rparr>"
    "jointPoint fullFrame Left (16 / 9) LmWrist = \<lparr>px = 15 / 100 * (16 / 9), py = 1 / 10\<rparr>"
    "jointPoint fullFrame Left (16 / 9) LmHip = \<lparr>px = 23 / 100 * (16 / 9), py = 2 / 10\<rparr>"
    "jointPoint fullFrame Left (16 / 9) LmKnee = \<lparr>px = 25 / 100 * (16 / 9), py = 4 / 10\<rparr>"
    "jointPoint fullFrame Left (16 / 9) LmAnkle = \<lparr>px = 27 / 100 * (16 / 9), py = 6 / 10\<rparr>"
    by (simp_all add: jointPoint_def jointIndex_def corrected_def fullFrame_at)
  from computeAngles_all_or_nothing [of fullFrame Left "16 / 9" LmKnee 25]
    computeAngles_all_or_nothing [of dimFrame Left "16 / 9" LmKnee 25]
    computeAngles_all_or_nothing [of dimFrame Right "16 / 9" LmKnee 25]
    computeAngles_all_or_nothing [of shortFrame Left "16 / 9" LmHip 23]
    u1 u2 u3 u4 pts
  show ?thesis by simp
qed


end
